theory Spec2Isabelle
  imports Main
begin

section \<open>The connection pool of node-mysql2: data model\<close>

text \<open>
  The pool (\<^verbatim>\<open>Pool\<close>, source file \<^verbatim>\<open>src/unnamed/part_000\<close>) keeps four queues of the
  \<^verbatim>\<open>denque\<close> library and a closed flag; its configuration is built by \<^verbatim>\<open>PoolConfig\<close>
  (\<^verbatim>\<open>src/lib/pool_config.js\<close>).

  Connections and callbacks are JavaScript objects, compared by identity (\<^verbatim>\<open>===\<close>) and
  mutated in place. They are modelled by identifiers; the two fields of a connection that
  the pool reads or writes (\<^verbatim>\<open>_pool\<close> and \<^verbatim>\<open>_lastReleased\<close>) live in a store indexed by
  the identifier, so that every queue holding a connection sees the same fields.
\<close>

type_synonym conn_id = nat
type_synonym cb_id = nat

text \<open>\<^verbatim>\<open>new Error(message)\<close>; the three messages the pool itself produces.\<close>

datatype error = Error string

definition PoolClosed :: error where
  "PoolClosed = Error ''Pool is closed.''"

definition NoConnectionsAvailable :: error where
  "NoConnectionsAvailable = Error ''No connections available.''"

definition QueueLimitReached :: error where
  "QueueLimitReached = Error ''Queue limit reached.''"

text \<open>
  What the pool asks of its environment. A call of a continuation is an \<open>action\<close>; it is
  either made on the spot (\<open>Invoke\<close>) or handed to \<^verbatim>\<open>process.nextTick\<close> (\<open>NextTick\<close>).
  The remaining effects are calls of methods that are not part of the pool: the event
  emitter and the connection's \<^verbatim>\<open>connect\<close>, \<^verbatim>\<open>destroy\<close> and \<^verbatim>\<open>_realEnd\<close>.
\<close>

datatype action =
    Callback cb_id "error option" "conn_id option"   \<comment> \<open>\<^verbatim>\<open>cb(err, connection)\<close>\<close>
  | GetConnection cb_id                              \<comment> \<open>\<^verbatim>\<open>this.getConnection(cb)\<close>\<close>
  | EndCallback "cb_id option" "error option"        \<comment> \<open>\<^verbatim>\<open>cb(err)\<close> of \<^verbatim>\<open>end\<close>; \<open>None\<close> is the default callback\<close>

datatype effect =
    NextTick action
  | Invoke action
  | Emit string "conn_id option"
  | Connect conn_id cb_id
  | Destroy conn_id
  | RealEnd conn_id

text \<open>
  The configuration object. Its four numbers are JavaScript numbers; the record leaves
  their type open. \<^verbatim>\<open>PoolConfig\<close> produces them as values of \<open>jsnum\<close> below, which has
  \<^verbatim>\<open>NaN\<close> and the infinities. The pool itself is modelled for a configuration whose numbers
  are integers: for these the comparisons with the length of a queue and the product
  \<^verbatim>\<open>idleTimeout * 1000\<close> are exact.
\<close>

record 'n pool_config =
  waitForConnections :: bool
  connectionLimit :: 'n
  queueLimit :: 'n
  minConnections :: 'n
  idleTimeout :: 'n

record pool =
  config :: "int pool_config"
  allConnections :: "conn_id list"
  freeConnections :: "conn_id list"
  extraConnections :: "conn_id list"
  connectionQueue :: "cb_id list"
  closed :: bool
  expiredTimer :: bool
  conn_pool :: "conn_id \<Rightarrow> bool"                 \<comment> \<open>is \<^verbatim>\<open>connection._pool\<close> set?\<close>
  conn_lastReleased :: "conn_id \<Rightarrow> int option"   \<comment> \<open>\<^verbatim>\<open>connection._lastReleased\<close>, \<open>None\<close> while undefined\<close>
  next_conn :: conn_id                             \<comment> \<open>the identity of the next object \<^verbatim>\<open>new\<close> creates\<close>
  effects :: "effect list"

subsection \<open>PoolConfig\<close>

text \<open>
  A JavaScript number: \<^verbatim>\<open>NaN\<close>, the two infinities, or a finite number. The finite
  numbers are taken from any linearly ordered ring \<open>'a\<close>, such as the integers or the
  reals; the doubles lie in the reals, and \<^verbatim>\<open>Math.min\<close>, \<^verbatim>\<open>Math.max\<close> and \<^verbatim>\<open><=\<close> compute
  no new number. The two zeros of JavaScript, which \<^verbatim>\<open><=\<close> does not tell apart, are one.

  \<open>js_le\<close> is \<^verbatim>\<open><=\<close>: false as soon as one side is \<^verbatim>\<open>NaN\<close>. \<^verbatim>\<open>Math.min\<close> and
  \<^verbatim>\<open>Math.max\<close> return \<^verbatim>\<open>NaN\<close> as soon as one argument is \<^verbatim>\<open>NaN\<close>.
\<close>

datatype 'a jsnum = NaN | NegInfinity | Finite 'a | PosInfinity

fun js_le :: "'a::linorder jsnum \<Rightarrow> 'a jsnum \<Rightarrow> bool" where
  "js_le NaN y = False"
| "js_le x NaN = False"
| "js_le NegInfinity y = True"
| "js_le x PosInfinity = True"
| "js_le (Finite a) (Finite b) = (a \<le> b)"
| "js_le PosInfinity y = False"
| "js_le x NegInfinity = False"

definition Math_min :: "'a::linorder jsnum \<Rightarrow> 'a jsnum \<Rightarrow> 'a jsnum" where
  "Math_min x y = (if x = NaN \<or> y = NaN then NaN else if js_le x y then x else y)"

definition Math_max :: "'a::linorder jsnum \<Rightarrow> 'a jsnum \<Rightarrow> 'a jsnum" where
  "Math_max x y = (if x = NaN \<or> y = NaN then NaN else if js_le x y then y else x)"

text \<open>
  The options object. A field is \<open>None\<close> when the option is \<^verbatim>\<open>null\<close> or \<^verbatim>\<open>undefined\<close>
  (the test \<^verbatim>\<open>== null\<close> of the source holds for exactly these two) and \<open>Some v\<close> for any
  other JavaScript value \<open>v\<close>; the type \<open>'v\<close> of these values is left open.

  \<^verbatim>\<open>PoolConfig\<close> applies the built-in conversions \<^verbatim>\<open>Boolean\<close> and \<^verbatim>\<open>Number\<close> to the
  values it is given. They are not part of the sources and are parameters here, so that
  what is proved holds whatever they return: \<^verbatim>\<open>NaN\<close> for a string that is not a number, a
  fraction, a rounded number for a big integer. A connection string is first turned into
  an options object by \<^verbatim>\<open>ConnectionConfig.parseUrl\<close>, and the nested \<^verbatim>\<open>connectionConfig\<close>
  is built by \<^verbatim>\<open>ConnectionConfig\<close>; neither is among the sources, and neither touches the
  five fields below.
\<close>

record 'v options =
  opt_waitForConnections :: "'v option"
  opt_connectionLimit :: "'v option"
  opt_queueLimit :: "'v option"
  opt_minConnections :: "'v option"
  opt_idleTimeout :: "'v option"

definition PoolConfig ::
  "('v \<Rightarrow> bool) \<Rightarrow> ('v \<Rightarrow> 'a jsnum) \<Rightarrow> 'v options \<Rightarrow> ('a::linordered_idom) jsnum pool_config"
  where
  "PoolConfig Boolean Number opts =
     (let wait = (case opt_waitForConnections opts of None \<Rightarrow> True | Some v \<Rightarrow> Boolean v);
          limit = (case opt_connectionLimit opts of None \<Rightarrow> Finite 10 | Some v \<Rightarrow> Number v);
          qlimit = (case opt_queueLimit opts of None \<Rightarrow> Finite 0 | Some v \<Rightarrow> Number v)
      in \<lparr> waitForConnections = wait,
           connectionLimit = limit,
           queueLimit = qlimit,
           minConnections =
             Math_min limit
               (case opt_minConnections opts of None \<Rightarrow> limit | Some v \<Rightarrow> Number v),
           idleTimeout =
             Math_max (Finite 15)
               (case opt_idleTimeout opts of None \<Rightarrow> Finite 300 | Some v \<Rightarrow> Number v) \<rparr>)"

text \<open>
  The two conversions on the values that are booleans or numbers: \<^verbatim>\<open>Boolean\<close> of a
  number is false for zero and \<^verbatim>\<open>NaN\<close>, \<^verbatim>\<open>Number\<close> of a boolean is 0 or 1, and each
  returns a value of its own type as it is.
\<close>

datatype jsval = JBoolean bool | JNumber "int jsnum"

fun js_Boolean :: "jsval \<Rightarrow> bool" where
  "js_Boolean (JBoolean b) = b"
| "js_Boolean (JNumber n) = (n \<noteq> NaN \<and> n \<noteq> Finite 0)"

fun js_Number :: "jsval \<Rightarrow> int jsnum" where
  "js_Number (JBoolean b) = Finite (if b then 1 else 0)"
| "js_Number (JNumber n) = n"

subsection \<open>The queue operations of denque\<close>

text \<open>
  A \<^verbatim>\<open>denque\<close> is a double-ended queue; a list, front first. \<^verbatim>\<open>shift\<close> and \<^verbatim>\<open>pop\<close>
  return \<^verbatim>\<open>undefined\<close> on an empty queue and leave it empty.
\<close>

definition push :: "'a list \<Rightarrow> 'a \<Rightarrow> 'a list" where
  "push q x = q @ [x]"

definition shift :: "'a list \<Rightarrow> 'a option \<times> 'a list" where
  "shift q = (case q of [] \<Rightarrow> (None, []) | x # xs \<Rightarrow> (Some x, xs))"

definition pop :: "'a list \<Rightarrow> 'a option \<times> 'a list" where
  "pop q = (if q = [] then (None, []) else (Some (last q), butlast q))"

definition peek :: "'a list \<Rightarrow> 'a option" where
  "peek q = (case q of [] \<Rightarrow> None | x # xs \<Rightarrow> Some x)"

subsection \<open>The pool\<close>

definition Pool :: "int pool_config \<Rightarrow> pool" where
  "Pool cfg =
     \<lparr> config = cfg, allConnections = [], freeConnections = [], extraConnections = [],
       connectionQueue = [], closed = False, expiredTimer = False,
       conn_pool = (\<lambda>c. False), conn_lastReleased = (\<lambda>c. None), next_conn = 0,
       effects = [] \<rparr>"

definition perform :: "effect \<Rightarrow> pool \<Rightarrow> pool" where
  "perform e p = p\<lparr>effects := effects p @ [e]\<rparr>"

definition startExpiredTimer :: "pool \<Rightarrow> pool" where
  "startExpiredTimer p = (if \<not> expiredTimer p then p\<lparr>expiredTimer := True\<rparr> else p)"

definition stopExpiredTimer :: "pool \<Rightarrow> pool" where
  "stopExpiredTimer p = (if expiredTimer p then p\<lparr>expiredTimer := False\<rparr> else p)"

text \<open>
  Modelled from the spec: the constructor \<^verbatim>\<open>PoolConnection\<close> is not among the sources.
  \<^verbatim>\<open>new PoolConnection(this, ...)\<close> yields a fresh object whose back-reference \<^verbatim>\<open>_pool\<close>
  is the owning pool (spec, section 6) and whose \<^verbatim>\<open>_lastReleased\<close> is not yet defined.
\<close>

definition newPoolConnection :: "pool \<Rightarrow> conn_id \<times> pool" where
  "newPoolConnection p =
     (next_conn p,
      p\<lparr>conn_pool := (conn_pool p)(next_conn p := True),
        conn_lastReleased := (conn_lastReleased p)(next_conn p := None),
        next_conn := Suc (next_conn p)\<rparr>)"

text \<open>
  \<^verbatim>\<open>Pool.prototype.getConnection\<close>. The local variable \<^verbatim>\<open>connection\<close> is an option:
  \<open>None\<close> while it is \<^verbatim>\<open>undefined\<close>. A connection is an object, hence truthy, so
  \<^verbatim>\<open>!connection\<close> is \<open>connection = None\<close>.
\<close>

definition getConnection :: "cb_id \<Rightarrow> pool \<Rightarrow> pool" where
  "getConnection cb p =
     (if closed p then perform (NextTick (Callback cb (Some PoolClosed) None)) p
      else
        (let (connection1, p1) =
               (if 0 < length (freeConnections p)
                then (fst (shift (freeConnections p)),
                      p\<lparr>freeConnections := snd (shift (freeConnections p))\<rparr>)
                else (None, p));
             (connection2, p2) =
               (if connection1 = None \<and> 0 < length (extraConnections p1)
                then (fst (pop (extraConnections p1)),
                      p1\<lparr>extraConnections := snd (pop (extraConnections p1))\<rparr>)
                else (connection1, p1))
         in case connection2 of
              Some c \<Rightarrow> perform (NextTick (Callback cb None (Some c))) p2
            | None \<Rightarrow>
                if connectionLimit (config p2) = 0
                   \<or> int (length (allConnections p2)) < connectionLimit (config p2)
                then
                  (let (c, p3) = newPoolConnection p2;
                       p4 = startExpiredTimer p3;
                       p5 = p4\<lparr>allConnections := push (allConnections p4) c\<rparr>
                   in perform (Connect c cb) p5)
                else if \<not> waitForConnections (config p2)
                then perform (NextTick (Callback cb (Some NoConnectionsAvailable) None)) p2
                else if queueLimit (config p2) \<noteq> 0
                        \<and> queueLimit (config p2) \<le> int (length (connectionQueue p2))
                then perform (Invoke (Callback cb (Some QueueLimitReached) None)) p2
                else
                  (let p3 = perform (Emit ''enqueue'' None) p2
                   in p3\<lparr>connectionQueue := push (connectionQueue p3) cb\<rparr>)))"

text \<open>
  The function handed to \<^verbatim>\<open>connection.connect\<close> (lines 60 to 70), run when the
  connection attempt of \<open>c\<close> completes with \<open>err\<close>.
\<close>

definition connectCallback :: "cb_id \<Rightarrow> conn_id \<Rightarrow> error option \<Rightarrow> pool \<Rightarrow> pool" where
  "connectCallback cb c err p =
     (if closed p then perform (Invoke (Callback cb (Some PoolClosed) None)) p
      else
        (case err of
           Some e \<Rightarrow> perform (Invoke (Callback cb (Some e) None)) p
         | None \<Rightarrow>
             perform (Invoke (Callback cb None (Some c)))
               (perform (Emit ''connection'' (Some c)) p)))"

text \<open>\<^verbatim>\<open>Pool.prototype.releaseConnection\<close>; \<open>now\<close> is what \<^verbatim>\<open>Date.now()\<close> returns.\<close>

definition releaseConnection :: "conn_id \<Rightarrow> int \<Rightarrow> pool \<Rightarrow> pool" where
  "releaseConnection c now p =
     (if \<not> conn_pool p c then
        (if 0 < length (connectionQueue p) then
           (case shift (connectionQueue p) of
              (Some cb, q) \<Rightarrow> perform (NextTick (GetConnection cb)) (p\<lparr>connectionQueue := q\<rparr>)
            | (None, q) \<Rightarrow> p)
         else p)
      else if 0 < length (connectionQueue p) then
        (case shift (connectionQueue p) of
           (Some cb, q) \<Rightarrow>
             perform (NextTick (Callback cb None (Some c))) (p\<lparr>connectionQueue := q\<rparr>)
         | (None, q) \<Rightarrow> p)
      else if minConnections (config p) \<le> int (length (freeConnections p)) then
        p\<lparr>conn_lastReleased := (conn_lastReleased p)(c := Some now),
          extraConnections := push (extraConnections p) c\<rparr>
      else p\<lparr>freeConnections := push (freeConnections p) c\<rparr>)"

text \<open>
  \<^verbatim>\<open>Pool.prototype.end\<close>. The closure \<^verbatim>\<open>endCB\<close> shares the two local variables
  \<^verbatim>\<open>calledBack\<close> and \<^verbatim>\<open>closedConnections\<close> with the call of \<^verbatim>\<open>end\<close> that made it;
  they are the \<open>end_state\<close>. An error is truthy, no error (\<^verbatim>\<open>undefined\<close>, \<^verbatim>\<open>null\<close>) is
  \<open>None\<close>. In \<^verbatim>\<open>err || ++closedConnections >= ...\<close> the counter is incremented only when
  \<^verbatim>\<open>err\<close> is falsy. The length of \<^verbatim>\<open>_allConnections\<close> is read when \<^verbatim>\<open>endCB\<close> runs.
\<close>

record end_state =
  calledBack :: bool
  closedConnections :: nat

definition endCB :: "cb_id option \<Rightarrow> error option \<Rightarrow> end_state \<times> pool \<Rightarrow> end_state \<times> pool" where
  "endCB cb err sp =
     (let (s, p) = sp
      in if calledBack s then (s, p)
         else
           (case err of
              Some e \<Rightarrow> (s\<lparr>calledBack := True\<rparr>, perform (Invoke (EndCallback cb (Some e))) p)
            | None \<Rightarrow>
                (let s1 = s\<lparr>closedConnections := Suc (closedConnections s)\<rparr>
                 in if length (allConnections p) \<le> closedConnections s1
                    then (s1\<lparr>calledBack := True\<rparr>, perform (Invoke (EndCallback cb None)) p)
                    else (s1, p))))"

text \<open>
  The argument is \<open>None\<close> when \<^verbatim>\<open>cb\<close> is not a function; the default callback then
  stands in for it.
\<close>

definition pool_end :: "cb_id option \<Rightarrow> pool \<Rightarrow> end_state \<times> pool" where
  "pool_end cb p =
     (let p1 = stopExpiredTimer (p\<lparr>closed := True\<rparr>);
          s0 = \<lparr> calledBack = False, closedConnections = 0 \<rparr>
      in if length (allConnections p1) = 0 then endCB cb None (s0, p1)
         else (s0, fold (\<lambda>connection. perform (RealEnd connection)) (allConnections p1) p1))"

text \<open>
  The graceful ends complete one after the other, each calling \<^verbatim>\<open>endCB\<close> with its
  result; \<open>endCB_replies\<close> runs the closure on the results in the order they arrive.
\<close>

definition endCB_replies ::
  "cb_id option \<Rightarrow> error option list \<Rightarrow> end_state \<times> pool \<Rightarrow> end_state \<times> pool" where
  "endCB_replies cb errs sp = fold (endCB cb) errs sp"

text \<open>
  \<^verbatim>\<open>spliceConnection\<close>. \<open>splice_scan k\<close> is the loop \<^verbatim>\<open>for (; --len; )\<close> when the
  decremented counter is \<open>k\<close>: it runs at most \<open>k\<close> times, so the loop as a whole runs at
  most \<open>length q - 1\<close> times. Inside the loop the queue is never empty.
\<close>

fun splice_scan :: "nat \<Rightarrow> conn_id \<Rightarrow> conn_id list \<Rightarrow> conn_id list" where
  "splice_scan 0 connection q = q"
| "splice_scan (Suc k) connection [] = []"
| "splice_scan (Suc k) connection (x # xs) =
     (if x = connection then xs else splice_scan k connection (push xs x))"

definition spliceConnection :: "conn_id list \<Rightarrow> conn_id \<Rightarrow> conn_id list" where
  "spliceConnection q connection =
     (if 0 < length q then
        (if last q = connection then snd (pop q)
         else splice_scan (length q - 1) connection q)
      else q)"

text \<open>\<^verbatim>\<open>Pool.prototype._removeConnection\<close>.\<close>

definition removeConnection :: "conn_id \<Rightarrow> int \<Rightarrow> pool \<Rightarrow> pool" where
  "removeConnection connection now p =
     (let p1 = p\<lparr>allConnections := spliceConnection (allConnections p) connection\<rparr>;
          p2 = p1\<lparr>freeConnections := spliceConnection (freeConnections p1) connection\<rparr>;
          p3 = p2\<lparr>extraConnections := spliceConnection (extraConnections p2) connection\<rparr>;
          p4 = releaseConnection connection now p3
      in if length (allConnections p4) = 0 then stopExpiredTimer p4 else p4)"

text \<open>
  Modelled from the spec: the back-reference of a connection to its pool is cleared when
  the connection is forcibly removed (spec, sections 3 and 6); the assignment itself is
  made by the connection, outside the sources.
\<close>

definition detach :: "conn_id \<Rightarrow> pool \<Rightarrow> pool" where
  "detach connection p = p\<lparr>conn_pool := (conn_pool p)(connection := False)\<rparr>"

text \<open>
  Modelled from the spec: \<^verbatim>\<open>conn.destroy()\<close> is a method of the connection, which is
  not among the sources. The spec has it destroy the underlying resource of the
  connection (sections 4.4 and 6), has the back-reference of a connection cleared on
  forced removal (sections 3 and 6), and has a connection that the sweep destroys removed
  from \<open>allConnections\<close> (section 8 and its second scenario). The sweep itself removes the
  connection from \<open>extraConnections\<close> only, and the one operation of the pool that removes
  from \<open>allConnections\<close> is \<^verbatim>\<open>_removeConnection\<close> (section 4.6). So \<open>destroy\<close> clears the
  back-reference, removes the connection from the pool through \<^verbatim>\<open>_removeConnection\<close>, and
  destroys the resource, which is recorded as the effect \<open>Destroy\<close>.
\<close>

definition destroy :: "conn_id \<Rightarrow> int \<Rightarrow> pool \<Rightarrow> pool" where
  "destroy conn now p = perform (Destroy conn) (removeConnection conn now (detach conn p))"

text \<open>
  \<^verbatim>\<open>Pool.prototype._closeIdleConnections\<close>. The comparison
  \<^verbatim>\<open>now > conn._lastReleased + timeout\<close> is false when \<^verbatim>\<open>_lastReleased\<close> is undefined
  (the sum is then \<^verbatim>\<open>NaN\<close>).
\<close>

definition idle_expired :: "int \<Rightarrow> int \<Rightarrow> int option \<Rightarrow> bool" where
  "idle_expired now timeout lastReleased =
     (case lastReleased of None \<Rightarrow> False | Some t \<Rightarrow> t + timeout < now)"

function closeIdleLoop :: "int \<Rightarrow> int \<Rightarrow> pool \<Rightarrow> pool" where
  "closeIdleLoop now timeout p =
     (if 0 < length (extraConnections p) then
        (case peek (extraConnections p) of
           None \<Rightarrow> p
         | Some conn \<Rightarrow>
             if idle_expired now timeout (conn_lastReleased p conn)
             then closeIdleLoop now timeout
                    (destroy conn now
                       (p\<lparr>extraConnections := snd (shift (extraConnections p))\<rparr>))
             else p)
      else p)"
  by pat_completeness auto
termination
proof (relation "measure (\<lambda>(now, timeout, p). length (extraConnections p))")
  show "wf (measure (\<lambda>(now, timeout, p). length (extraConnections p)))"
    by simp
next
  fix now timeout :: int and p :: pool and conn :: conn_id
  assume nonempty: "0 < length (extraConnections p)"
  have scan: "length (splice_scan k c q) \<le> length q" for k c q
    by (induction k c q rule: splice_scan.induct) (simp_all add: push_def)
  have splice: "length (spliceConnection q c) \<le> length q" for q c
    by (simp add: spliceConnection_def pop_def scan)
  have release: "extraConnections (releaseConnection c t q) = extraConnections q"
    if "\<not> conn_pool q c" for c t q
    using that by (simp add: releaseConnection_def shift_def perform_def split: list.splits)
  have "length (extraConnections (destroy conn now q)) \<le> length (extraConnections q)" for q
    by (simp add: destroy_def perform_def removeConnection_def Let_def stopExpiredTimer_def
        release detach_def splice)
  from this [of "p\<lparr>extraConnections := snd (shift (extraConnections p))\<rparr>"] nonempty
  show "((now, timeout,
          destroy conn now (p\<lparr>extraConnections := snd (shift (extraConnections p))\<rparr>)),
         (now, timeout, p))
        \<in> measure (\<lambda>(now, timeout, p). length (extraConnections p))"
    by (cases "extraConnections p") (simp_all add: shift_def)
qed

declare closeIdleLoop.simps [simp del]

definition closeIdleConnections :: "int \<Rightarrow> pool \<Rightarrow> pool" where
  "closeIdleConnections now p = closeIdleLoop now (idleTimeout (config p) * 1000) p"

subsection \<open>Runs of the pool\<close>

text \<open>
  The calls a pool receives during its life, with the values the environment supplies
  (the clock, the result of a connection attempt). A reachable state is the state after
  a run from a newly constructed pool.
\<close>

datatype pool_op =
    OpGetConnection cb_id
  | OpConnectCallback cb_id conn_id "error option"
  | OpReleaseConnection conn_id int
  | OpEnd "cb_id option"
  | OpCloseIdleConnections int
  | OpRemoveConnection conn_id int
  | OpDetach conn_id

fun step :: "pool_op \<Rightarrow> pool \<Rightarrow> pool" where
  "step (OpGetConnection cb) p = getConnection cb p"
| "step (OpConnectCallback cb c err) p = connectCallback cb c err p"
| "step (OpReleaseConnection c now) p = releaseConnection c now p"
| "step (OpEnd cb) p = snd (pool_end cb p)"
| "step (OpCloseIdleConnections now) p = closeIdleConnections now p"
| "step (OpRemoveConnection c now) p = removeConnection c now p"
| "step (OpDetach c) p = detach c p"

definition run :: "pool_op list \<Rightarrow> pool \<Rightarrow> pool" where
  "run ops p = fold step ops p"

subsection \<open>Observing a call\<close>

text \<open>
  The effects a call adds to the trace: those of the state after the call, \<open>p'\<close>, beyond
  the ones of the state before it, \<open>p\<close>. An effect is a delivery to the continuation
  \<open>cb\<close> when it calls \<open>cb\<close>, at once or on the next tick.
\<close>

definition emitted :: "pool \<Rightarrow> pool \<Rightarrow> effect list" where
  "emitted p p' = drop (length (effects p)) (effects p')"

definition delivery :: "cb_id \<Rightarrow> effect \<Rightarrow> bool" where
  "delivery cb e =
     (case e of
        NextTick (Callback cb' err c) \<Rightarrow> cb' = cb
      | Invoke (Callback cb' err c) \<Rightarrow> cb' = cb
      | _ \<Rightarrow> False)"

text \<open>
  The age of an idle connection, \<open>now - lastReleased\<close> in milliseconds, exceeds the idle
  timeout, which is in seconds.
\<close>

definition aged_out :: "int \<Rightarrow> pool \<Rightarrow> conn_id \<Rightarrow> bool" where
  "aged_out now p c =
     (case conn_lastReleased p c of
        None \<Rightarrow> False
      | Some t \<Rightarrow> idleTimeout (config p) * 1000 < now - t)"

text \<open>A call of the completion of \<^verbatim>\<open>end\<close>.\<close>

definition completion :: "effect \<Rightarrow> bool" where
  "completion e = (case e of Invoke (EndCallback cb err) \<Rightarrow> True | _ \<Rightarrow> False)"

text \<open>
  What the replies received so far make of the completion, for \<open>n\<close> tracked connections:
  the first error if there is one, no error once \<open>n\<close> replies without error have arrived,
  and nothing before that.
\<close>

definition completion_due :: "cb_id option \<Rightarrow> nat \<Rightarrow> error option list \<Rightarrow> effect list" where
  "completion_due cb n errs =
     (case dropWhile (\<lambda>err. err = None) errs of
        err # rest \<Rightarrow> [Invoke (EndCallback cb err)]
      | [] \<Rightarrow> if n \<le> length errs then [Invoke (EndCallback cb None)] else [])"

text \<open>
  The extra queue is in ascending order of \<open>lastReleased\<close>, every connection in it
  carrying a stamp.
\<close>

definition stamp_le :: "int option \<Rightarrow> int option \<Rightarrow> bool" where
  "stamp_le a b = (case (a, b) of (Some s, Some t) \<Rightarrow> s \<le> t | _ \<Rightarrow> False)"

definition extra_sorted :: "pool \<Rightarrow> bool" where
  "extra_sorted p =
     sorted_wrt (\<lambda>a b. stamp_le (conn_lastReleased p a) (conn_lastReleased p b))
       (extraConnections p)"

subsection \<open>Example runs\<close>

text \<open>
  A pool with three connections, all idle: connection 0 was released into the free
  queue, connections 1 and 2 into the extra queue.
\<close>

definition warm_config :: "int pool_config" where
  "warm_config =
     \<lparr> waitForConnections = True, connectionLimit = 10, queueLimit = 0,
       minConnections = 1, idleTimeout = 15 \<rparr>"

definition warm_pool :: pool where
  "warm_pool =
     run [OpGetConnection 0, OpGetConnection 1, OpGetConnection 2,
          OpReleaseConnection 0 1000, OpReleaseConnection 1 2000,
          OpReleaseConnection 2 3000] (Pool warm_config)"

text \<open>
  The first scenario of the spec: at most two connections, at most one waiter. After
  three acquisitions both connections are in use and the third request waits.
\<close>

definition scenario_config :: "int pool_config" where
  "scenario_config =
     \<lparr> waitForConnections = True, connectionLimit = 2, queueLimit = 1,
       minConnections = 1, idleTimeout = 15 \<rparr>"

definition full_pool :: pool where
  "full_pool =
     run [OpGetConnection 0, OpGetConnection 1, OpGetConnection 2] (Pool scenario_config)"

text \<open>The third scenario of the spec: one connection, no waiting.\<close>

definition nowait_config :: "int pool_config" where
  "nowait_config =
     \<lparr> waitForConnections = False, connectionLimit = 1, queueLimit = 0,
       minConnections = 1, idleTimeout = 15 \<rparr>"

definition busy_pool :: pool where
  "busy_pool = run [OpGetConnection 0] (Pool nowait_config)"

text \<open>The pool of the first scenario after shutdown, with its waiter still queued.\<close>

definition shut_pool :: pool where
  "shut_pool = step (OpEnd None) full_pool"

text \<open>
  The first scenario continued: connection 0 is released and handed to the waiter
  (\<open>handed_pool\<close>), then connection 1 is released and rests in the free queue
  (\<open>rested_pool\<close>). \<open>retired_pool\<close> is \<open>handed_pool\<close> after shutdown.
\<close>

definition handed_pool :: pool where
  "handed_pool = releaseConnection 0 5000 full_pool"

definition rested_pool :: pool where
  "rested_pool = releaseConnection 1 6000 handed_pool"

definition retired_pool :: pool where
  "retired_pool = step (OpEnd None) handed_pool"

text \<open>A configuration whose connection limit is a negative number.\<close>

definition negative_config :: "int pool_config" where
  "negative_config =
     \<lparr> waitForConnections = True, connectionLimit = - 1, queueLimit = 0,
       minConnections = - 1, idleTimeout = 15 \<rparr>"

text \<open>
  A pool that keeps no free connections: four connections are acquired, and connections
  0, 1 and 2 are released one second apart into the extra queue (\<open>surplus_pool\<close>). Then
  connection 3, still in use, fails: it loses its back-reference and is removed from the
  pool (\<open>rotated_pool\<close>).
\<close>

definition surplus_config :: "int pool_config" where
  "surplus_config =
     \<lparr> waitForConnections = True, connectionLimit = 10, queueLimit = 0,
       minConnections = 0, idleTimeout = 15 \<rparr>"

definition surplus_pool :: pool where
  "surplus_pool =
     run [OpGetConnection 0, OpGetConnection 1, OpGetConnection 2, OpGetConnection 3,
          OpReleaseConnection 0 1000, OpReleaseConnection 1 2000,
          OpReleaseConnection 2 3000] (Pool surplus_config)"

definition rotated_pool :: pool where
  "rotated_pool = run [OpDetach 3, OpRemoveConnection 3 4000] surplus_pool"

text \<open>
  Three options objects: none of the five options given; all five given, some as
  booleans where a number is expected and the other way round; and \<^verbatim>\<open>NaN\<close> given for
  \<^verbatim>\<open>minConnections\<close> and \<^verbatim>\<open>idleTimeout\<close>.
\<close>

definition no_options :: "jsval options" where
  "no_options =
     \<lparr> opt_waitForConnections = None, opt_connectionLimit = None, opt_queueLimit = None,
       opt_minConnections = None, opt_idleTimeout = None \<rparr>"

definition mixed_options :: "jsval options" where
  "mixed_options =
     \<lparr> opt_waitForConnections = Some (JNumber (Finite 0)),
       opt_connectionLimit = Some (JNumber (Finite 5)),
       opt_queueLimit = Some (JBoolean True),
       opt_minConnections = Some (JNumber (Finite 20)),
       opt_idleTimeout = Some (JNumber (Finite 5)) \<rparr>"

definition nan_options :: "jsval options" where
  "nan_options =
     \<lparr> opt_waitForConnections = None, opt_connectionLimit = None, opt_queueLimit = None,
       opt_minConnections = Some (JNumber NaN), opt_idleTimeout = Some (JNumber NaN) \<rparr>"

section \<open>Evaluation and case analysis\<close>

lemmas pool_eval =
  run_def Pool_def getConnection_def releaseConnection_def connectCallback_def
  perform_def newPoolConnection_def startExpiredTimer_def stopExpiredTimer_def
  push_def shift_def pop_def peek_def

lemmas remove_eval =
  removeConnection_def spliceConnection_def detach_def eval_nat_numeral

lemma shift_Cons: "shift (x # xs) = (Some x, xs)"
  by (simp add: shift_def)

lemma pop_snoc: "pop (xs @ [x]) = (Some x, xs)"
  by (simp add: pop_def)

lemma warm_pool_state:
  "closed warm_pool = False"
  "freeConnections warm_pool = [0]"
  "extraConnections warm_pool = [1, 2]"
  "allConnections warm_pool = [0, 1, 2]"
  "connectionQueue warm_pool = []"
  "config warm_pool = warm_config"
  "map (conn_lastReleased warm_pool) [0, 1, 2] = [None, Some 2000, Some 3000]"
  "map (conn_pool warm_pool) [0, 1, 2] = [True, True, True]"
  by (simp_all add: warm_pool_def warm_config_def pool_eval)

lemma full_pool_state:
  "closed full_pool = False"
  "freeConnections full_pool = []"
  "extraConnections full_pool = []"
  "allConnections full_pool = [0, 1]"
  "connectionQueue full_pool = [2]"
  "config full_pool = scenario_config"
  "map (conn_pool full_pool) [0, 1] = [True, True]"
  "effects full_pool = [Connect 0 0, Connect 1 1, Emit ''enqueue'' None]"
  by (simp_all add: full_pool_def scenario_config_def pool_eval)

lemma busy_pool_state:
  "closed busy_pool = False"
  "freeConnections busy_pool = []"
  "extraConnections busy_pool = []"
  "allConnections busy_pool = [0]"
  "connectionQueue busy_pool = []"
  "config busy_pool = nowait_config"
  "effects busy_pool = [Connect 0 0]"
  by (simp_all add: busy_pool_def nowait_config_def pool_eval)

lemma pool_end_nonempty:
  "allConnections p \<noteq> [] \<Longrightarrow>
   pool_end cb p =
     (\<lparr> calledBack = False, closedConnections = 0 \<rparr>,
      p\<lparr>closed := True, expiredTimer := False,
        effects := effects p @ map RealEnd (allConnections p)\<rparr>)"
proof -
  have f: "\<And>q. fold (\<lambda>connection. perform (RealEnd connection)) cs q
      = q\<lparr>effects := effects q @ map RealEnd cs\<rparr>" for cs
    by (induction cs) (simp_all add: perform_def)
  assume "allConnections p \<noteq> []"
  then show ?thesis
    by (simp add: pool_end_def stopExpiredTimer_def f)
qed

lemma pool_end_empty:
  "allConnections p = [] \<Longrightarrow>
   pool_end cb p =
     (\<lparr> calledBack = True, closedConnections = 1 \<rparr>,
      p\<lparr>closed := True, expiredTimer := False,
        effects := effects p @ [Invoke (EndCallback cb None)]\<rparr>)"
  by (simp add: pool_end_def stopExpiredTimer_def endCB_def perform_def)

lemma full_pool_conns:
  "conn_pool full_pool 0 = True"
  "conn_pool full_pool (Suc 0) = True"
  by (simp_all add: full_pool_def scenario_config_def pool_eval)

lemma shut_pool_state:
  "closed shut_pool = True"
  "freeConnections shut_pool = []"
  "extraConnections shut_pool = []"
  "allConnections shut_pool = [0, 1]"
  "connectionQueue shut_pool = [2]"
  "config shut_pool = scenario_config"
  "conn_pool shut_pool 0 = True"
  "conn_pool shut_pool (Suc 0) = True"
  "effects shut_pool = [Connect 0 0, Connect 1 1, Emit ''enqueue'' None, RealEnd 0, RealEnd 1]"
  by (simp_all add: shut_pool_def pool_end_nonempty full_pool_state full_pool_conns)

lemma handed_pool_state:
  "connectionQueue handed_pool = []"
  "freeConnections handed_pool = []"
  "extraConnections handed_pool = []"
  "config handed_pool = scenario_config"
  "conn_pool handed_pool (Suc 0) = True"
  by (simp_all add: handed_pool_def full_pool_def scenario_config_def pool_eval)

lemma rested_pool_state:
  "connectionQueue rested_pool = []"
  "freeConnections rested_pool = [Suc 0]"
  "extraConnections rested_pool = []"
  "config rested_pool = scenario_config"
  "conn_pool rested_pool 0 = True"
  by (simp_all add: rested_pool_def handed_pool_def full_pool_def scenario_config_def pool_eval)

lemma handed_pool_all:
  "allConnections handed_pool = [0, Suc 0]"
  "effects handed_pool =
     [Connect 0 0, Connect (Suc 0) (Suc 0), Emit ''enqueue'' None,
      NextTick (Callback 2 None (Some 0))]"
  by (simp_all add: handed_pool_def full_pool_def scenario_config_def pool_eval)

lemma retired_pool_state:
  "closed retired_pool = True"
  "connectionQueue retired_pool = []"
  "freeConnections retired_pool = []"
  "extraConnections retired_pool = []"
  "conn_pool retired_pool (Suc 0) = True"
  "config retired_pool = scenario_config"
  by (simp_all add: retired_pool_def pool_end_nonempty handed_pool_state handed_pool_all)

lemma surplus_pool_state:
  "allConnections surplus_pool = [0, 1, 2, 3]"
  "freeConnections surplus_pool = []"
  "extraConnections surplus_pool = [0, 1, 2]"
  "connectionQueue surplus_pool = []"
  "config surplus_pool = surplus_config"
  "conn_lastReleased surplus_pool 0 = Some 1000"
  "conn_lastReleased surplus_pool (Suc 0) = Some 2000"
  "conn_lastReleased surplus_pool 2 = Some 3000"
  by (simp_all add: surplus_pool_def surplus_config_def pool_eval)

lemma rotated_pool_state:
  "allConnections rotated_pool = [0, 1, 2]"
  "freeConnections rotated_pool = []"
  "extraConnections rotated_pool = [2, 0, 1]"
  "config rotated_pool = surplus_config"
  "conn_lastReleased rotated_pool 0 = Some 1000"
  "conn_lastReleased rotated_pool (Suc 0) = Some 2000"
  "conn_lastReleased rotated_pool 2 = Some 3000"
  by (simp_all add: rotated_pool_def surplus_pool_def surplus_config_def pool_eval remove_eval)

subsection \<open>The branches of getConnection\<close>

lemma getConnection_closed:
  "closed p \<Longrightarrow> getConnection cb p =
     p\<lparr>effects := effects p @ [NextTick (Callback cb (Some PoolClosed) None)]\<rparr>"
  by (simp add: getConnection_def perform_def)

lemma getConnection_free:
  "\<not> closed p \<Longrightarrow> freeConnections p = c # fs \<Longrightarrow>
   getConnection cb p =
     p\<lparr>freeConnections := fs, effects := effects p @ [NextTick (Callback cb None (Some c))]\<rparr>"
  by (simp add: getConnection_def shift_Cons perform_def)

lemma getConnection_extra:
  "\<not> closed p \<Longrightarrow> freeConnections p = [] \<Longrightarrow> extraConnections p = es @ [c] \<Longrightarrow>
   getConnection cb p =
     p\<lparr>extraConnections := es, effects := effects p @ [NextTick (Callback cb None (Some c))]\<rparr>"
  by (simp add: getConnection_def pop_snoc perform_def)

lemma getConnection_create:
  "\<not> closed p \<Longrightarrow> freeConnections p = [] \<Longrightarrow> extraConnections p = [] \<Longrightarrow>
   connectionLimit (config p) = 0 \<or> int (length (allConnections p)) < connectionLimit (config p) \<Longrightarrow>
   getConnection cb p =
     p\<lparr>allConnections := allConnections p @ [next_conn p],
       expiredTimer := True,
       conn_pool := (conn_pool p)(next_conn p := True),
       conn_lastReleased := (conn_lastReleased p)(next_conn p := None),
       next_conn := Suc (next_conn p),
       effects := effects p @ [Connect (next_conn p) cb]\<rparr>"
  by (auto simp add: getConnection_def perform_def newPoolConnection_def
      startExpiredTimer_def push_def)

lemma getConnection_nowait:
  "\<not> closed p \<Longrightarrow> freeConnections p = [] \<Longrightarrow> extraConnections p = [] \<Longrightarrow>
   connectionLimit (config p) \<noteq> 0 \<Longrightarrow>
   connectionLimit (config p) \<le> int (length (allConnections p)) \<Longrightarrow>
   \<not> waitForConnections (config p) \<Longrightarrow>
   getConnection cb p =
     p\<lparr>effects := effects p @ [NextTick (Callback cb (Some NoConnectionsAvailable) None)]\<rparr>"
  by (simp add: getConnection_def perform_def)

lemma getConnection_queue_full:
  "\<not> closed p \<Longrightarrow> freeConnections p = [] \<Longrightarrow> extraConnections p = [] \<Longrightarrow>
   connectionLimit (config p) \<noteq> 0 \<Longrightarrow>
   connectionLimit (config p) \<le> int (length (allConnections p)) \<Longrightarrow>
   waitForConnections (config p) \<Longrightarrow>
   queueLimit (config p) \<noteq> 0 \<Longrightarrow>
   queueLimit (config p) \<le> int (length (connectionQueue p)) \<Longrightarrow>
   getConnection cb p =
     p\<lparr>effects := effects p @ [Invoke (Callback cb (Some QueueLimitReached) None)]\<rparr>"
  by (simp add: getConnection_def perform_def)

lemma getConnection_enqueue:
  "\<not> closed p \<Longrightarrow> freeConnections p = [] \<Longrightarrow> extraConnections p = [] \<Longrightarrow>
   connectionLimit (config p) \<noteq> 0 \<Longrightarrow>
   connectionLimit (config p) \<le> int (length (allConnections p)) \<Longrightarrow>
   waitForConnections (config p) \<Longrightarrow>
   queueLimit (config p) = 0 \<or> int (length (connectionQueue p)) < queueLimit (config p) \<Longrightarrow>
   getConnection cb p =
     p\<lparr>connectionQueue := connectionQueue p @ [cb],
       effects := effects p @ [Emit ''enqueue'' None]\<rparr>"
  by (auto simp add: getConnection_def perform_def push_def)

text \<open>The seven ways through \<^verbatim>\<open>getConnection\<close>, in the order of the source.\<close>

lemma getConnection_branches [case_names closed free extra create nowait full enqueue]:
  obtains "closed p"
  | c fs where "\<not> closed p" "freeConnections p = c # fs"
  | es c where "\<not> closed p" "freeConnections p = []" "extraConnections p = es @ [c]"
  | "\<not> closed p" "freeConnections p = []" "extraConnections p = []"
      "connectionLimit (config p) = 0
       \<or> int (length (allConnections p)) < connectionLimit (config p)"
  | "\<not> closed p" "freeConnections p = []" "extraConnections p = []"
      "connectionLimit (config p) \<noteq> 0"
      "connectionLimit (config p) \<le> int (length (allConnections p))"
      "\<not> waitForConnections (config p)"
  | "\<not> closed p" "freeConnections p = []" "extraConnections p = []"
      "connectionLimit (config p) \<noteq> 0"
      "connectionLimit (config p) \<le> int (length (allConnections p))"
      "waitForConnections (config p)"
      "queueLimit (config p) \<noteq> 0"
      "queueLimit (config p) \<le> int (length (connectionQueue p))"
  | "\<not> closed p" "freeConnections p = []" "extraConnections p = []"
      "connectionLimit (config p) \<noteq> 0"
      "connectionLimit (config p) \<le> int (length (allConnections p))"
      "waitForConnections (config p)"
      "queueLimit (config p) = 0
       \<or> int (length (connectionQueue p)) < queueLimit (config p)"
proof (cases "closed p")
  case True
  then show ?thesis using that(1) by blast
next
  case is_open: False
  show ?thesis
  proof (cases "freeConnections p")
    case (Cons c fs)
    with is_open show ?thesis using that(2) by blast
  next
    case free: Nil
    show ?thesis
    proof (cases "extraConnections p" rule: rev_cases)
      case (snoc es c)
      with is_open free show ?thesis using that(3) by blast
    next
      case extra: Nil
      show ?thesis
      proof (cases "connectionLimit (config p) = 0
          \<or> int (length (allConnections p)) < connectionLimit (config p)")
        case True
        with is_open free extra show ?thesis using that(4) by blast
      next
        case limit: False
        then have l1: "connectionLimit (config p) \<noteq> 0"
          and l2: "connectionLimit (config p) \<le> int (length (allConnections p))"
          by auto
        show ?thesis
        proof (cases "waitForConnections (config p)")
          case False
          with is_open free extra l1 l2 show ?thesis using that(5) by blast
        next
          case wait: True
          show ?thesis
          proof (cases "queueLimit (config p) \<noteq> 0
              \<and> queueLimit (config p) \<le> int (length (connectionQueue p))")
            case True
            with is_open free extra l1 l2 wait show ?thesis using that(6) by blast
          next
            case False
            then have "queueLimit (config p) = 0
              \<or> int (length (connectionQueue p)) < queueLimit (config p)"
              by auto
            with is_open free extra l1 l2 wait show ?thesis using that(7) by blast
          qed
        qed
      qed
    qed
  qed
qed

section \<open>Configuration defaults\<close>

lemma js_le_min: "Math_min x y \<noteq> NaN \<Longrightarrow> js_le (Math_min x y) x"
  by (cases x; cases y) (auto simp add: Math_min_def)

lemma js_le_max: "Math_max x y \<noteq> NaN \<Longrightarrow> js_le x (Math_max x y)"
  by (cases x; cases y) (auto simp add: Math_max_def)

text \<open>
  C9, as stated, fails when an option is not a number: with \<^verbatim>\<open>NaN\<close> given for
  \<^verbatim>\<open>minConnections\<close> and for \<^verbatim>\<open>idleTimeout\<close>, both fields of the configuration are
  \<^verbatim>\<open>NaN\<close>, so that \<open>minConnections \<le> connectionLimit\<close> and \<open>15 \<le> idleTimeout\<close> are both false.
\<close>

theorem PoolConfig_defaults_counterexample:
  "minConnections (PoolConfig js_Boolean js_Number nan_options) = NaN
   \<and> connectionLimit (PoolConfig js_Boolean js_Number nan_options) = Finite 10
   \<and> \<not> js_le (minConnections (PoolConfig js_Boolean js_Number nan_options))
          (connectionLimit (PoolConfig js_Boolean js_Number nan_options))
   \<and> idleTimeout (PoolConfig js_Boolean js_Number nan_options) = NaN
   \<and> \<not> js_le (Finite 15) (idleTimeout (PoolConfig js_Boolean js_Number nan_options))"
  by (simp add: PoolConfig_def nan_options_def Math_min_def Math_max_def)

text \<open>
  C9, amended. For every options object, whatever \<^verbatim>\<open>Boolean\<close> and \<^verbatim>\<open>Number\<close> return on
  its values: \<open>waitForConnections\<close> is true when the option is not given and \<^verbatim>\<open>Boolean\<close> of
  the given value otherwise; \<open>connectionLimit\<close> is 10 and \<open>queueLimit\<close> is 0 when not given,
  and \<^verbatim>\<open>Number\<close> of the given value otherwise; \<open>minConnections\<close> is \<^verbatim>\<open>Math.min\<close> of
  \<open>connectionLimit\<close> and \<^verbatim>\<open>Number\<close> of the given value, or \<open>connectionLimit\<close> when none is
  given; \<open>idleTimeout\<close> is \<^verbatim>\<open>Math.max\<close> of 15 and \<^verbatim>\<open>Number\<close> of the given value, or 300 when
  none is given. \<open>minConnections \<le> connectionLimit\<close> holds unless \<open>minConnections\<close> is
  \<^verbatim>\<open>NaN\<close>, which it is exactly when \<open>connectionLimit\<close> or the number given for it is;
  \<open>15 \<le> idleTimeout\<close> holds unless \<open>idleTimeout\<close> is \<^verbatim>\<open>NaN\<close>, which it is exactly when the
  number given for it is.
\<close>

theorem PoolConfig_defaults:
  "waitForConnections (PoolConfig Boolean Number opts) =
     (case opt_waitForConnections opts of None \<Rightarrow> True | Some v \<Rightarrow> Boolean v)
   \<and> connectionLimit (PoolConfig Boolean Number opts) =
       (case opt_connectionLimit opts of None \<Rightarrow> Finite 10 | Some v \<Rightarrow> Number v)
   \<and> queueLimit (PoolConfig Boolean Number opts) =
       (case opt_queueLimit opts of None \<Rightarrow> Finite 0 | Some v \<Rightarrow> Number v)
   \<and> minConnections (PoolConfig Boolean Number opts) =
       Math_min (connectionLimit (PoolConfig Boolean Number opts))
         (case opt_minConnections opts of
            None \<Rightarrow> connectionLimit (PoolConfig Boolean Number opts) | Some v \<Rightarrow> Number v)
   \<and> idleTimeout (PoolConfig Boolean Number opts) =
       Math_max (Finite 15)
         (case opt_idleTimeout opts of None \<Rightarrow> Finite 300 | Some v \<Rightarrow> Number v)
   \<and> (minConnections (PoolConfig Boolean Number opts) \<noteq> NaN \<longrightarrow>
        js_le (minConnections (PoolConfig Boolean Number opts))
          (connectionLimit (PoolConfig Boolean Number opts)))
   \<and> (minConnections (PoolConfig Boolean Number opts) = NaN \<longleftrightarrow>
        connectionLimit (PoolConfig Boolean Number opts) = NaN
        \<or> (\<exists>v. opt_minConnections opts = Some v \<and> Number v = NaN))
   \<and> (idleTimeout (PoolConfig Boolean Number opts) \<noteq> NaN \<longrightarrow>
        js_le (Finite 15) (idleTimeout (PoolConfig Boolean Number opts)))
   \<and> (idleTimeout (PoolConfig Boolean Number opts) = NaN \<longleftrightarrow>
        (\<exists>v. opt_idleTimeout opts = Some v \<and> Number v = NaN))"
proof -
  let ?c = "PoolConfig Boolean Number opts"
  have w: "waitForConnections ?c =
      (case opt_waitForConnections opts of None \<Rightarrow> True | Some v \<Rightarrow> Boolean v)"
    by (simp add: PoolConfig_def Let_def)
  have l: "connectionLimit ?c =
      (case opt_connectionLimit opts of None \<Rightarrow> Finite 10 | Some v \<Rightarrow> Number v)"
    by (simp add: PoolConfig_def Let_def)
  have q: "queueLimit ?c =
      (case opt_queueLimit opts of None \<Rightarrow> Finite 0 | Some v \<Rightarrow> Number v)"
    by (simp add: PoolConfig_def Let_def)
  have m: "minConnections ?c =
      Math_min (connectionLimit ?c)
        (case opt_minConnections opts of None \<Rightarrow> connectionLimit ?c | Some v \<Rightarrow> Number v)"
    by (simp add: PoolConfig_def Let_def split: option.splits)
  have i: "idleTimeout ?c =
      Math_max (Finite 15)
        (case opt_idleTimeout opts of None \<Rightarrow> Finite 300 | Some v \<Rightarrow> Number v)"
    by (simp add: PoolConfig_def Let_def)
  have ml: "minConnections ?c \<noteq> NaN \<longrightarrow> js_le (minConnections ?c) (connectionLimit ?c)"
    by (subst (1 2) m) (simp add: js_le_min)
  have mn: "minConnections ?c = NaN \<longleftrightarrow>
      connectionLimit ?c = NaN \<or> (\<exists>v. opt_minConnections opts = Some v \<and> Number v = NaN)"
    by (subst m) (auto simp add: Math_min_def split: option.splits)
  have il: "idleTimeout ?c \<noteq> NaN \<longrightarrow> js_le (Finite 15) (idleTimeout ?c)"
    by (simp add: i js_le_max)
  have "idleTimeout ?c = NaN \<longleftrightarrow> (\<exists>v. opt_idleTimeout opts = Some v \<and> Number v = NaN)"
    by (subst i) (auto simp add: Math_max_def split: option.splits)
  with w l q m i ml mn il show ?thesis by (intro conjI)
qed

theorem PoolConfig_defaults_witness:
  "PoolConfig js_Boolean js_Number no_options =
     \<lparr> waitForConnections = True, connectionLimit = Finite 10, queueLimit = Finite 0,
       minConnections = Finite 10, idleTimeout = Finite 300 \<rparr>
   \<and> PoolConfig js_Boolean js_Number mixed_options =
       \<lparr> waitForConnections = False, connectionLimit = Finite 5, queueLimit = Finite 1,
         minConnections = Finite 5, idleTimeout = Finite 15 \<rparr>
   \<and> js_le (minConnections (PoolConfig js_Boolean js_Number mixed_options))
        (connectionLimit (PoolConfig js_Boolean js_Number mixed_options))
   \<and> js_le (Finite 15) (idleTimeout (PoolConfig js_Boolean js_Number mixed_options))"
proof -
  let ?n = "PoolConfig js_Boolean js_Number no_options"
  let ?m = "PoolConfig js_Boolean js_Number mixed_options"
  from PoolConfig_defaults [of js_Boolean js_Number no_options]
  have n: "waitForConnections ?n = True" "connectionLimit ?n = Finite 10"
    "queueLimit ?n = Finite 0" "minConnections ?n = Finite 10" "idleTimeout ?n = Finite 300"
    by (simp_all add: no_options_def Math_min_def Math_max_def)
  from PoolConfig_defaults [of js_Boolean js_Number mixed_options]
  have m: "waitForConnections ?m = False" "connectionLimit ?m = Finite 5"
    "queueLimit ?m = Finite 1" "minConnections ?m = Finite 5" "idleTimeout ?m = Finite 15"
    by (simp_all add: mixed_options_def Math_min_def Math_max_def)
  have "minConnections ?m \<noteq> NaN" "idleTimeout ?m \<noteq> NaN"
    by (simp_all add: m)
  with PoolConfig_defaults [of js_Boolean js_Number mixed_options]
  have le: "js_le (minConnections ?m) (connectionLimit ?m)" "js_le (Finite 15) (idleTimeout ?m)"
    by blast+
  have "?n = \<lparr> waitForConnections = True, connectionLimit = Finite 10, queueLimit = Finite 0,
       minConnections = Finite 10, idleTimeout = Finite 300 \<rparr>"
    using n by (cases ?n) simp
  moreover have "?m = \<lparr> waitForConnections = False, connectionLimit = Finite 5,
       queueLimit = Finite 1, minConnections = Finite 5, idleTimeout = Finite 15 \<rparr>"
    using m by (cases ?m) simp
  ultimately show ?thesis using le by (intro conjI)
qed

section \<open>Acquisition\<close>

lemma connectCallback_once:
  "length (filter (delivery cb) (emitted p (connectCallback cb c err p))) = 1"
  by (simp add: connectCallback_def perform_def emitted_def delivery_def split: option.splits)

text \<open>
  C1. In an open pool an acquisition with an idle connection resolves with one: the front
  of \<open>freeConnections\<close> when that queue is not empty, otherwise the back of
  \<open>extraConnections\<close> when that queue is not empty; the continuation is handed exactly that
  connection, with no error, through \<^verbatim>\<open>process.nextTick\<close>, and nothing else changes. A new
  connection is created (registered in \<open>allConnections\<close>, allocated, or connected) only
  when both idle queues are empty.
\<close>

theorem getConnection_idle:
  assumes "\<not> closed p"
  shows "(freeConnections p = c # fs \<longrightarrow>
            getConnection cb p =
              p\<lparr>freeConnections := fs,
                effects := effects p @ [NextTick (Callback cb None (Some c))]\<rparr>)
       \<and> (freeConnections p = [] \<and> extraConnections p = es @ [c] \<longrightarrow>
            getConnection cb p =
              p\<lparr>extraConnections := es,
                effects := effects p @ [NextTick (Callback cb None (Some c))]\<rparr>)
       \<and> (allConnections (getConnection cb p) \<noteq> allConnections p
            \<or> next_conn (getConnection cb p) \<noteq> next_conn p
            \<or> (\<exists>c'. Connect c' cb \<in> set (emitted p (getConnection cb p))) \<longrightarrow>
            freeConnections p = [] \<and> extraConnections p = [])"
proof -
  have a: "freeConnections p = c # fs \<longrightarrow>
      getConnection cb p =
        p\<lparr>freeConnections := fs,
          effects := effects p @ [NextTick (Callback cb None (Some c))]\<rparr>"
    using assms by (simp add: getConnection_free)
  have b: "freeConnections p = [] \<and> extraConnections p = es @ [c] \<longrightarrow>
      getConnection cb p =
        p\<lparr>extraConnections := es,
          effects := effects p @ [NextTick (Callback cb None (Some c))]\<rparr>"
    using assms by (simp add: getConnection_extra)
  have c: "allConnections (getConnection cb p) \<noteq> allConnections p
      \<or> next_conn (getConnection cb p) \<noteq> next_conn p
      \<or> (\<exists>c'. Connect c' cb \<in> set (emitted p (getConnection cb p))) \<longrightarrow>
      freeConnections p = [] \<and> extraConnections p = []"
  proof (cases p rule: getConnection_branches)
    case closed
    with assms show ?thesis by simp
  next
    case (free c fs)
    then show ?thesis by (simp add: getConnection_free emitted_def)
  next
    case (extra es c)
    then show ?thesis by (simp add: getConnection_extra emitted_def)
  next
    case create
    then show ?thesis by simp
  next
    case nowait
    then show ?thesis by simp
  next
    case full
    then show ?thesis by simp
  next
    case enqueue
    then show ?thesis by simp
  qed
  from a b c show ?thesis by (intro conjI)
qed

theorem getConnection_idle_witness:
  "\<not> closed warm_pool
   \<and> freeConnections warm_pool = [0] \<and> extraConnections warm_pool = [1, 2]
   \<and> getConnection 7 warm_pool =
       warm_pool\<lparr>freeConnections := [],
         effects := effects warm_pool @ [NextTick (Callback 7 None (Some 0))]\<rparr>
   \<and> getConnection 8 (getConnection 7 warm_pool) =
       (getConnection 7 warm_pool)\<lparr>extraConnections := [1],
         effects := effects (getConnection 7 warm_pool) @ [NextTick (Callback 8 None (Some 2))]\<rparr>
   \<and> allConnections (getConnection 0 (Pool warm_config)) = [0]
   \<and> freeConnections (Pool warm_config) = [] \<and> extraConnections (Pool warm_config) = []"
proof -
  have n: "allConnections (getConnection 0 (Pool warm_config)) = [0]"
    by (simp add: warm_config_def pool_eval)
  have c: "freeConnections (Pool warm_config) = [] \<and> extraConnections (Pool warm_config) = []"
    using getConnection_idle [where p = "Pool warm_config" and cb = 0] n
    by (simp add: Pool_def)
  have a: "getConnection 7 warm_pool =
       warm_pool\<lparr>freeConnections := [],
         effects := effects warm_pool @ [NextTick (Callback 7 None (Some 0))]\<rparr>"
    using getConnection_idle [where p = warm_pool and c = 0 and fs = "[]" and cb = 7]
    by (simp add: warm_pool_state)
  have b: "getConnection 8 (getConnection 7 warm_pool) =
       (getConnection 7 warm_pool)\<lparr>extraConnections := [1],
         effects := effects (getConnection 7 warm_pool) @ [NextTick (Callback 8 None (Some 2))]\<rparr>"
    using getConnection_idle [where p = "getConnection 7 warm_pool" and c = 2 and es = "[1]"
        and cb = 8]
    by (simp add: a warm_pool_state)
  from a b c n show ?thesis by (simp add: warm_pool_state)
qed

text \<open>
  C2, as stated, fails for a pool that is closed while a connection attempt is in
  flight. In \<open>shut_pool\<close> the attempts of connections 0 and 1 were started by the requests
  0 and 1 and the pool was closed before they completed. When the attempt of connection
  0 completes, its handler calls the continuation with \<open>PoolClosed\<close> itself; nothing is
  handed to \<^verbatim>\<open>process.nextTick\<close>.
\<close>

theorem getConnection_failures_counterexample:
  "closed shut_pool
   \<and> Connect 0 0 \<in> set (effects shut_pool)
   \<and> emitted shut_pool (connectCallback 0 0 None shut_pool) =
       [Invoke (Callback 0 (Some PoolClosed) None)]
   \<and> NextTick (Callback 0 (Some PoolClosed) None)
       \<notin> set (effects (connectCallback 0 0 None shut_pool))"
  by (simp add: connectCallback_def perform_def emitted_def shut_pool_state)

text \<open>
  C2, amended. Every acquisition failure is delivered to the continuation of the request,
  once. The failures \<^verbatim>\<open>getConnection\<close> decides itself go through \<^verbatim>\<open>process.nextTick\<close>:
  \<open>PoolClosed\<close> on a closed pool, and \<open>NoConnectionsAvailable\<close> at capacity without
  waiting; except \<open>QueueLimitReached\<close>, at capacity with a positive \<open>queueLimit\<close> and at
  least that many waiters, which is a call made inside \<^verbatim>\<open>getConnection\<close> itself. No other
  call of a continuation is made inside \<^verbatim>\<open>getConnection\<close>, and one call of
  \<^verbatim>\<open>getConnection\<close> delivers to its continuation at most once. The failures of a
  connection attempt are delivered by a call made inside the handler of its completion:
  \<open>PoolClosed\<close> when the pool is closed by then, whatever the result of the attempt, and
  otherwise the error of the attempt, unchanged. The handler delivers exactly once.
\<close>

theorem getConnection_failures:
  "(closed p \<longrightarrow>
      getConnection cb p =
        p\<lparr>effects := effects p @ [NextTick (Callback cb (Some PoolClosed) None)]\<rparr>)
   \<and> (\<not> closed p \<and> freeConnections p = [] \<and> extraConnections p = []
       \<and> connectionLimit (config p) \<noteq> 0
       \<and> connectionLimit (config p) \<le> int (length (allConnections p))
       \<and> \<not> waitForConnections (config p) \<longrightarrow>
      getConnection cb p =
        p\<lparr>effects := effects p @ [NextTick (Callback cb (Some NoConnectionsAvailable) None)]\<rparr>)
   \<and> (\<not> closed p \<and> freeConnections p = [] \<and> extraConnections p = []
       \<and> connectionLimit (config p) \<noteq> 0
       \<and> connectionLimit (config p) \<le> int (length (allConnections p))
       \<and> waitForConnections (config p)
       \<and> 0 < queueLimit (config p)
       \<and> queueLimit (config p) \<le> int (length (connectionQueue p)) \<longrightarrow>
      getConnection cb p =
        p\<lparr>effects := effects p @ [Invoke (Callback cb (Some QueueLimitReached) None)]\<rparr>)
   \<and> (\<forall>a. Invoke a \<in> set (emitted p (getConnection cb p)) \<longrightarrow>
          a = Callback cb (Some QueueLimitReached) None)
   \<and> length (filter (delivery cb) (emitted p (getConnection cb p))) \<le> 1
   \<and> (closed p \<longrightarrow>
        connectCallback cb c err p =
          p\<lparr>effects := effects p @ [Invoke (Callback cb (Some PoolClosed) None)]\<rparr>)
   \<and> (\<not> closed p \<longrightarrow>
        connectCallback cb c (Some e) p =
          p\<lparr>effects := effects p @ [Invoke (Callback cb (Some e) None)]\<rparr>)
   \<and> length (filter (delivery cb) (emitted p (connectCallback cb c err p))) = 1"
proof -
  have a: "closed p \<longrightarrow>
      getConnection cb p =
        p\<lparr>effects := effects p @ [NextTick (Callback cb (Some PoolClosed) None)]\<rparr>"
    by (simp add: getConnection_closed)
  have b: "\<not> closed p \<and> freeConnections p = [] \<and> extraConnections p = []
       \<and> connectionLimit (config p) \<noteq> 0
       \<and> connectionLimit (config p) \<le> int (length (allConnections p))
       \<and> \<not> waitForConnections (config p) \<longrightarrow>
      getConnection cb p =
        p\<lparr>effects := effects p @ [NextTick (Callback cb (Some NoConnectionsAvailable) None)]\<rparr>"
    by (simp add: getConnection_nowait)
  have c: "\<not> closed p \<and> freeConnections p = [] \<and> extraConnections p = []
       \<and> connectionLimit (config p) \<noteq> 0
       \<and> connectionLimit (config p) \<le> int (length (allConnections p))
       \<and> waitForConnections (config p)
       \<and> 0 < queueLimit (config p)
       \<and> queueLimit (config p) \<le> int (length (connectionQueue p)) \<longrightarrow>
      getConnection cb p =
        p\<lparr>effects := effects p @ [Invoke (Callback cb (Some QueueLimitReached) None)]\<rparr>"
    by (simp add: getConnection_queue_full)
  have d: "\<forall>a. Invoke a \<in> set (emitted p (getConnection cb p)) \<longrightarrow>
          a = Callback cb (Some QueueLimitReached) None"
    by (cases p rule: getConnection_branches)
       (simp_all add: getConnection_closed getConnection_free getConnection_extra
          getConnection_create getConnection_nowait getConnection_queue_full
          getConnection_enqueue emitted_def)
  have e: "length (filter (delivery cb) (emitted p (getConnection cb p))) \<le> 1"
    by (cases p rule: getConnection_branches)
       (simp_all add: getConnection_closed getConnection_free getConnection_extra
          getConnection_create getConnection_nowait getConnection_queue_full
          getConnection_enqueue emitted_def)
  have f: "closed p \<longrightarrow>
        connectCallback cb c err p =
          p\<lparr>effects := effects p @ [Invoke (Callback cb (Some PoolClosed) None)]\<rparr>"
    by (simp add: connectCallback_def perform_def)
  have g: "\<not> closed p \<longrightarrow>
        connectCallback cb c (Some e) p =
          p\<lparr>effects := effects p @ [Invoke (Callback cb (Some e) None)]\<rparr>"
    by (simp add: connectCallback_def perform_def)
  have h: "length (filter (delivery cb) (emitted p (connectCallback cb c err p))) = 1"
    by (rule connectCallback_once)
  from a b c d e f g h show ?thesis by (intro conjI)
qed

theorem getConnection_failures_witness:
  "closed shut_pool
   \<and> getConnection 3 shut_pool =
       shut_pool\<lparr>effects := effects shut_pool @ [NextTick (Callback 3 (Some PoolClosed) None)]\<rparr>
   \<and> getConnection 1 busy_pool =
       busy_pool\<lparr>effects :=
         [Connect 0 0, NextTick (Callback 1 (Some NoConnectionsAvailable) None)]\<rparr>
   \<and> queueLimit (config full_pool) = 1 \<and> connectionQueue full_pool = [2]
   \<and> getConnection 3 full_pool =
       full_pool\<lparr>effects :=
         [Connect 0 0, Connect 1 1, Emit ''enqueue'' None,
          Invoke (Callback 3 (Some QueueLimitReached) None)]\<rparr>
   \<and> emitted full_pool (getConnection 3 full_pool) =
       [Invoke (Callback 3 (Some QueueLimitReached) None)]
   \<and> connectCallback 1 1 (Some (Error ''connect ECONNREFUSED'')) shut_pool =
       shut_pool\<lparr>effects := effects shut_pool @ [Invoke (Callback 1 (Some PoolClosed) None)]\<rparr>
   \<and> \<not> closed full_pool
   \<and> connectCallback 1 1 (Some (Error ''connect ECONNREFUSED'')) full_pool =
       full_pool\<lparr>effects :=
         [Connect 0 0, Connect 1 1, Emit ''enqueue'' None,
          Invoke (Callback 1 (Some (Error ''connect ECONNREFUSED'')) None)]\<rparr>"
proof -
  have a: "getConnection 3 shut_pool =
       shut_pool\<lparr>effects := effects shut_pool @ [NextTick (Callback 3 (Some PoolClosed) None)]\<rparr>"
    using getConnection_failures [where p = shut_pool and cb = 3]
    by (simp add: shut_pool_state)
  have b: "getConnection 1 busy_pool =
       busy_pool\<lparr>effects :=
         [Connect 0 0, NextTick (Callback 1 (Some NoConnectionsAvailable) None)]\<rparr>"
    using getConnection_failures [where p = busy_pool and cb = 1]
    by (simp add: busy_pool_state nowait_config_def)
  have c: "getConnection 3 full_pool =
       full_pool\<lparr>effects :=
         [Connect 0 0, Connect 1 1, Emit ''enqueue'' None,
          Invoke (Callback 3 (Some QueueLimitReached) None)]\<rparr>"
    using getConnection_failures [where p = full_pool and cb = 3]
    by (simp add: full_pool_state scenario_config_def)
  have d: "emitted full_pool (getConnection 3 full_pool) =
       [Invoke (Callback 3 (Some QueueLimitReached) None)]"
    by (simp add: c emitted_def full_pool_state)
  have e: "connectCallback 1 1 (Some (Error ''connect ECONNREFUSED'')) shut_pool =
       shut_pool\<lparr>effects := effects shut_pool @ [Invoke (Callback 1 (Some PoolClosed) None)]\<rparr>"
    using getConnection_failures [where p = shut_pool and cb = 1 and c = 1
        and err = "Some (Error ''connect ECONNREFUSED'')"]
    by (simp add: shut_pool_state)
  have f: "connectCallback 1 1 (Some (Error ''connect ECONNREFUSED'')) full_pool =
       full_pool\<lparr>effects :=
         [Connect 0 0, Connect 1 1, Emit ''enqueue'' None,
          Invoke (Callback 1 (Some (Error ''connect ECONNREFUSED'')) None)]\<rparr>"
    using getConnection_failures [where p = full_pool and cb = 1 and c = 1
        and e = "Error ''connect ECONNREFUSED''"]
    by (simp add: full_pool_state)
  from a b c d e f show ?thesis
    by (simp add: shut_pool_state full_pool_state scenario_config_def)
qed

section \<open>Release\<close>

text \<open>
  C3. Release of a connection that still references the pool. With a waiter queued, the
  oldest waiter leaves the queue and is handed exactly this connection, with no error,
  through \<^verbatim>\<open>process.nextTick\<close>; nothing else changes, so the connection enters neither
  idle queue. With no waiter, the connection is appended to \<open>extraConnections\<close> and its
  \<open>lastReleased\<close> is set to the current time when \<open>freeConnections\<close> holds at least
  \<open>minConnections\<close> connections; otherwise it is appended to \<open>freeConnections\<close> and
  nothing else changes.
\<close>

theorem releaseConnection_attached:
  assumes "conn_pool p c"
  shows "(connectionQueue p = cb # q \<longrightarrow>
            releaseConnection c now p =
              p\<lparr>connectionQueue := q,
                effects := effects p @ [NextTick (Callback cb None (Some c))]\<rparr>)
       \<and> (connectionQueue p = []
           \<and> minConnections (config p) \<le> int (length (freeConnections p)) \<longrightarrow>
            releaseConnection c now p =
              p\<lparr>conn_lastReleased := (conn_lastReleased p)(c := Some now),
                extraConnections := extraConnections p @ [c]\<rparr>)
       \<and> (connectionQueue p = []
           \<and> int (length (freeConnections p)) < minConnections (config p) \<longrightarrow>
            releaseConnection c now p = p\<lparr>freeConnections := freeConnections p @ [c]\<rparr>)"
  using assms by (simp add: releaseConnection_def shift_Cons perform_def push_def)

theorem releaseConnection_attached_witness:
  "conn_pool full_pool 0 \<and> connectionQueue full_pool = [2]
   \<and> releaseConnection 0 5000 full_pool =
       full_pool\<lparr>connectionQueue := [],
         effects := effects full_pool @ [NextTick (Callback 2 None (Some 0))]\<rparr>
   \<and> freeConnections (releaseConnection 0 5000 full_pool) = []
   \<and> extraConnections (releaseConnection 0 5000 full_pool) = []
   \<and> releaseConnection 1 6000 handed_pool = handed_pool\<lparr>freeConnections := [1]\<rparr>
   \<and> releaseConnection 0 7000 rested_pool =
       rested_pool\<lparr>conn_lastReleased := (conn_lastReleased rested_pool)(0 := Some 7000),
         extraConnections := [0]\<rparr>"
proof -
  have a: "releaseConnection 0 5000 full_pool =
       full_pool\<lparr>connectionQueue := [],
         effects := effects full_pool @ [NextTick (Callback 2 None (Some 0))]\<rparr>"
    using releaseConnection_attached [where p = full_pool and c = 0 and cb = 2 and q = "[]"
        and now = 5000]
    by (simp add: full_pool_state full_pool_conns)
  have b: "releaseConnection 1 6000 handed_pool = handed_pool\<lparr>freeConnections := [1]\<rparr>"
    using releaseConnection_attached [where p = handed_pool and c = 1 and now = 6000]
    by (simp add: handed_pool_state scenario_config_def)
  have c: "releaseConnection 0 7000 rested_pool =
       rested_pool\<lparr>conn_lastReleased := (conn_lastReleased rested_pool)(0 := Some 7000),
         extraConnections := [0]\<rparr>"
    using releaseConnection_attached [where p = rested_pool and c = 0 and now = 7000]
    by (simp add: rested_pool_state scenario_config_def)
  have d: "freeConnections (releaseConnection 0 5000 full_pool) = []"
    "extraConnections (releaseConnection 0 5000 full_pool) = []"
    by (simp_all add: a full_pool_state)
  from a b c d show ?thesis
    by (simp add: full_pool_state full_pool_conns)
qed

text \<open>
  C10. \<^verbatim>\<open>releaseConnection\<close> neither reads nor writes the closed flag, and the only
  effects it has are deferred: the hand-over of the connection or the fresh acquisition
  for a waiter, never an error. In a closed pool a connection that still references the
  pool is therefore handed to a waiter or, with no waiter, kept in an idle queue, with no
  effect at all. \<^verbatim>\<open>getConnection\<close> on a closed pool fails with \<open>PoolClosed\<close>.
\<close>

theorem releaseConnection_ignores_closed:
  "releaseConnection c now (p\<lparr>closed := b\<rparr>) = (releaseConnection c now p)\<lparr>closed := b\<rparr>
   \<and> closed (releaseConnection c now p) = closed p
   \<and> (\<forall>e \<in> set (emitted p (releaseConnection c now p)).
         \<exists>cb. e = NextTick (GetConnection cb) \<or> e = NextTick (Callback cb None (Some c)))
   \<and> (closed p \<and> conn_pool p c \<and> connectionQueue p = [] \<longrightarrow>
         (c \<in> set (freeConnections (releaseConnection c now p))
          \<or> c \<in> set (extraConnections (releaseConnection c now p)))
         \<and> effects (releaseConnection c now p) = effects p)
   \<and> (closed p \<longrightarrow>
         getConnection cb p =
           p\<lparr>effects := effects p @ [NextTick (Callback cb (Some PoolClosed) None)]\<rparr>)"
proof -
  have a: "releaseConnection c now (p\<lparr>closed := b\<rparr>) = (releaseConnection c now p)\<lparr>closed := b\<rparr>"
    by (simp add: releaseConnection_def shift_def perform_def push_def split: list.splits)
  have b: "closed (releaseConnection c now p) = closed p"
    by (simp add: releaseConnection_def shift_def perform_def push_def split: list.splits)
  have c: "\<forall>e \<in> set (emitted p (releaseConnection c now p)).
         \<exists>cb. e = NextTick (GetConnection cb) \<or> e = NextTick (Callback cb None (Some c))"
    by (simp add: releaseConnection_def shift_def perform_def push_def emitted_def
        split: list.splits)
  have d: "closed p \<and> conn_pool p c \<and> connectionQueue p = [] \<longrightarrow>
         (c \<in> set (freeConnections (releaseConnection c now p))
          \<or> c \<in> set (extraConnections (releaseConnection c now p)))
         \<and> effects (releaseConnection c now p) = effects p"
    by (simp add: releaseConnection_def push_def)
  have e: "closed p \<longrightarrow>
         getConnection cb p =
           p\<lparr>effects := effects p @ [NextTick (Callback cb (Some PoolClosed) None)]\<rparr>"
    by (simp add: getConnection_closed)
  from a b c d e show ?thesis by (intro conjI)
qed

theorem releaseConnection_ignores_closed_witness:
  "closed shut_pool \<and> connectionQueue shut_pool = [2]
   \<and> releaseConnection 0 5000 shut_pool =
       shut_pool\<lparr>connectionQueue := [],
         effects := effects shut_pool @ [NextTick (Callback 2 None (Some 0))]\<rparr>
   \<and> closed retired_pool \<and> conn_pool retired_pool 1 \<and> connectionQueue retired_pool = []
   \<and> freeConnections (releaseConnection 1 6000 retired_pool) = [1]
   \<and> effects (releaseConnection 1 6000 retired_pool) = effects retired_pool
   \<and> closed (releaseConnection 1 6000 retired_pool)
   \<and> getConnection 3 retired_pool =
       retired_pool\<lparr>effects := effects retired_pool @ [NextTick (Callback 3 (Some PoolClosed) None)]\<rparr>"
proof -
  have s: "shut_pool = full_pool\<lparr>closed := True, expiredTimer := False,
      effects := effects full_pool @ [RealEnd 0, RealEnd 1]\<rparr>"
    by (simp add: shut_pool_def pool_end_nonempty full_pool_state)
  have a: "releaseConnection 0 5000 shut_pool =
       shut_pool\<lparr>connectionQueue := [],
         effects := effects shut_pool @ [NextTick (Callback 2 None (Some 0))]\<rparr>"
    by (simp add: releaseConnection_def shut_pool_state shift_Cons perform_def)
  have b: "effects (releaseConnection 1 6000 retired_pool) = effects retired_pool"
    "closed (releaseConnection 1 6000 retired_pool)"
    "getConnection 3 retired_pool =
       retired_pool\<lparr>effects := effects retired_pool @ [NextTick (Callback 3 (Some PoolClosed) None)]\<rparr>"
    using releaseConnection_ignores_closed [where p = retired_pool and c = 1 and now = 6000
        and cb = 3]
    by (simp_all add: retired_pool_state)
  have c: "freeConnections (releaseConnection 1 6000 retired_pool) = [1]"
    by (simp add: releaseConnection_def retired_pool_state scenario_config_def push_def)
  from a b c show ?thesis
    by (simp add: shut_pool_state retired_pool_state)
qed

section \<open>The idle sweep\<close>

lemma idle_expired_aged_out:
  "idle_expired now (idleTimeout (config p) * 1000) (conn_lastReleased p c) = aged_out now p c"
  by (auto simp add: idle_expired_def aged_out_def split: option.splits)

text \<open>
  C6. The claim is that one run of the sweep removes from \<open>extraConnections\<close> exactly the
  longest prefix of connections whose age is greater than \<open>idleTimeout\<close>, destroys each of
  them and leaves the connections behind it as they are. The code at \<open>surplus_pool\<close>, whose
  extra queue \<open>[0, 1, 2]\<close> was released at 1000, 2000 and 3000, with a timeout of 15
  seconds, swept at 17500: connections 0 and 1 are aged out and connection 2 is not, so
  the prefix is \<open>[0, 1]\<close>. The sweep takes connection 0 from the front and destroys it;
  the removal of connection 0 from the pool runs the scan of \<^verbatim>\<open>spliceConnection\<close> over the
  rest of the extra queue, which turns \<open>[1, 2]\<close> into \<open>[2, 1]\<close>; the sweep then finds
  connection 2 at the front and stops. Connection 1 stays, aged out, behind connection 2.
\<close>

theorem closeIdleConnections_leaves_aged_out:
  "extraConnections surplus_pool = [0, 1, 2]
   \<and> allConnections surplus_pool = [0, 1, 2, 3]
   \<and> map (conn_lastReleased surplus_pool) [0, 1, 2] = [Some 1000, Some 2000, Some 3000]
   \<and> idleTimeout (config surplus_pool) = 15
   \<and> takeWhile (aged_out 17500 surplus_pool) (extraConnections surplus_pool) = [0, 1]
   \<and> extraConnections (closeIdleConnections 17500 surplus_pool) = [2, 1]
   \<and> allConnections (closeIdleConnections 17500 surplus_pool) = [1, 2, 3]
   \<and> emitted surplus_pool (closeIdleConnections 17500 surplus_pool) = [Destroy 0]
   \<and> aged_out 17500 (closeIdleConnections 17500 surplus_pool) 1"
proof -
  have g: "aged_out 17500 surplus_pool 0" "aged_out 17500 surplus_pool (Suc 0)"
    "\<not> aged_out 17500 surplus_pool 2"
    by (simp_all add: aged_out_def surplus_pool_state surplus_config_def)
  have s: "closeIdleConnections 17500 surplus_pool =
      surplus_pool\<lparr>allConnections := [1, 2, 3], extraConnections := [2, 1],
        conn_pool := (conn_pool surplus_pool)(0 := False),
        effects := effects surplus_pool @ [Destroy 0]\<rparr>"
    by (simp add: closeIdleConnections_def closeIdleLoop.simps surplus_pool_def
        surplus_config_def pool_eval remove_eval destroy_def idle_expired_def)
  have a: "aged_out 17500 (closeIdleConnections 17500 surplus_pool) 1"
    by (simp add: s aged_out_def surplus_pool_state surplus_config_def)
  from g a show ?thesis
    by (simp add: surplus_pool_state surplus_config_def) (simp add: s emitted_def)
qed

section \<open>Shutdown\<close>

text \<open>
  The closure \<^verbatim>\<open>endCB\<close>, one reply at a time, and on the replies of the tracked
  connections in the order they arrive.
\<close>

lemma endCB_called: "calledBack s \<Longrightarrow> endCB cb err (s, p) = (s, p)"
  by (simp add: endCB_def)

lemma endCB_replies_called: "calledBack s \<Longrightarrow> endCB_replies cb errs (s, p) = (s, p)"
  by (induction errs) (simp_all add: endCB_replies_def endCB_called)

lemma endCB_error:
  "\<not> calledBack s \<Longrightarrow>
   endCB cb (Some e) (s, p) =
     (s\<lparr>calledBack := True\<rparr>, p\<lparr>effects := effects p @ [Invoke (EndCallback cb (Some e))]\<rparr>)"
  by (simp add: endCB_def perform_def)

lemma endCB_success_pending:
  "\<not> calledBack s \<Longrightarrow> Suc (closedConnections s) < length (allConnections p) \<Longrightarrow>
   endCB cb None (s, p) = (s\<lparr>closedConnections := Suc (closedConnections s)\<rparr>, p)"
  by (simp add: endCB_def)

lemma endCB_success_last:
  "\<not> calledBack s \<Longrightarrow> length (allConnections p) \<le> Suc (closedConnections s) \<Longrightarrow>
   endCB cb None (s, p) =
     (s\<lparr>closedConnections := Suc (closedConnections s), calledBack := True\<rparr>,
      p\<lparr>effects := effects p @ [Invoke (EndCallback cb None)]\<rparr>)"
  by (simp add: endCB_def perform_def)

lemma endCB_replies_Cons:
  "endCB_replies cb (err # errs) sp = endCB_replies cb errs (endCB cb err sp)"
  by (simp add: endCB_replies_def)

lemma endCB_replies_Nil: "endCB_replies cb [] sp = sp"
  by (simp add: endCB_replies_def)

lemma endCB_replies_effects:
  "\<not> calledBack s \<Longrightarrow> closedConnections s + length errs \<le> length (allConnections p) \<Longrightarrow>
   closedConnections s < length (allConnections p) \<Longrightarrow>
   effects (snd (endCB_replies cb errs (s, p))) =
     effects p @ completion_due cb (length (allConnections p) - closedConnections s) errs"
proof (induction errs arbitrary: s)
  case Nil
  then show ?case by (simp add: endCB_replies_Nil completion_due_def)
next
  case (Cons err errs)
  show ?case
  proof (cases err)
    case (Some e)
    with Cons.prems show ?thesis
      by (simp add: endCB_replies_Cons endCB_error endCB_replies_called completion_due_def)
  next
    case None
    show ?thesis
    proof (cases "Suc (closedConnections s) < length (allConnections p)")
      case True
      let ?s = "s\<lparr>closedConnections := Suc (closedConnections s)\<rparr>"
      have "effects (snd (endCB_replies cb errs (?s, p))) =
          effects p @ completion_due cb (length (allConnections p) - closedConnections ?s) errs"
        using Cons.prems True by (intro Cons.IH) simp_all
      moreover have "completion_due cb (length (allConnections p) - closedConnections ?s) errs
          = completion_due cb (length (allConnections p) - closedConnections s) (None # errs)"
        using True by (auto simp add: completion_due_def split: list.splits)
      ultimately show ?thesis
        using None Cons.prems True by (simp add: endCB_replies_Cons endCB_success_pending)
    next
      case False
      then have l: "length (allConnections p) \<le> Suc (closedConnections s)" by simp
      with Cons.prems have "length errs \<le> 0" by (simp del: length_0_conv le_zero_eq)
      then have "errs = []" by simp
      with None Cons.prems l show ?thesis
        by (simp add: endCB_replies_Cons endCB_success_last endCB_replies_Nil completion_due_def)
    qed
  qed
qed

lemma endCB_replies_once:
  "\<exists>es. effects (snd (endCB_replies cb errs (s, p))) = effects p @ es
        \<and> length es \<le> 1 \<and> (calledBack s \<longrightarrow> es = [])"
proof (induction errs arbitrary: s p)
  case Nil
  then show ?case by (simp add: endCB_replies_Nil)
next
  case (Cons err errs)
  show ?case
  proof (cases "calledBack s")
    case True
    then show ?thesis by (simp add: endCB_replies_called)
  next
    case False
    obtain s' p' where e: "endCB cb err (s, p) = (s', p')" by (cases "endCB cb err (s, p)")
    then have "(s' = s\<lparr>closedConnections := Suc (closedConnections s)\<rparr> \<and> p' = p \<and> \<not> calledBack s')
        \<or> (calledBack s' \<and> (\<exists>x. effects p' = effects p @ [x]))"
      using False by (auto simp add: endCB_def perform_def Let_def split: option.splits if_splits)
    then show ?thesis
    proof
      assume a: "s' = s\<lparr>closedConnections := Suc (closedConnections s)\<rparr> \<and> p' = p \<and> \<not> calledBack s'"
      from Cons.IH [of s' p'] obtain es where
        "effects (snd (endCB_replies cb errs (s', p'))) = effects p' @ es" "length es \<le> 1"
        by blast
      with a e False show ?thesis by (simp add: endCB_replies_Cons)
    next
      assume a: "calledBack s' \<and> (\<exists>x. effects p' = effects p @ [x])"
      then have "endCB_replies cb errs (s', p') = (s', p')" by (simp add: endCB_replies_called)
      with a e False show ?thesis by (auto simp add: endCB_replies_Cons)
    qed
  qed
qed

lemma completion_due_all:
  "n \<le> length errs \<Longrightarrow> \<exists>err. completion_due cb n errs = [Invoke (EndCallback cb err)]"
  by (simp add: completion_due_def split: list.splits)

lemma no_completion_RealEnd: "filter completion (map RealEnd cs) = []"
  by (induction cs) (simp_all add: completion_def)

text \<open>
  C7. \<^verbatim>\<open>end\<close> closes the pool and stops the timer. With no tracked connection the
  completion is called at once, with no error. Otherwise \<^verbatim>\<open>_realEnd\<close> is called on
  every tracked connection, in order, and the completion is not called yet; as the
  replies arrive (at most one for each connection) the completion is called with the
  first error as soon as a reply carries one, or with no error once every connection has
  replied without error, whichever comes first. Whatever the replies, the completion is
  called at most once, and exactly once when there was no connection or every connection
  has replied.
\<close>

theorem pool_end_completion:
  "(allConnections p = [] \<longrightarrow>
      pool_end cb p =
        (\<lparr> calledBack = True, closedConnections = 1 \<rparr>,
         p\<lparr>closed := True, expiredTimer := False,
           effects := effects p @ [Invoke (EndCallback cb None)]\<rparr>))
   \<and> (allConnections p \<noteq> [] \<longrightarrow>
      pool_end cb p =
        (\<lparr> calledBack = False, closedConnections = 0 \<rparr>,
         p\<lparr>closed := True, expiredTimer := False,
           effects := effects p @ map RealEnd (allConnections p)\<rparr>))
   \<and> (allConnections p \<noteq> [] \<and> length errs \<le> length (allConnections p) \<longrightarrow>
      emitted (snd (pool_end cb p)) (snd (endCB_replies cb errs (pool_end cb p))) =
        completion_due cb (length (allConnections p)) errs)
   \<and> length (filter completion (emitted p (snd (endCB_replies cb errs (pool_end cb p))))) \<le> 1
   \<and> (allConnections p = [] \<or> length errs = length (allConnections p) \<longrightarrow>
      length (filter completion (emitted p (snd (endCB_replies cb errs (pool_end cb p))))) = 1)"
proof -
  have a: "allConnections p = [] \<longrightarrow>
      pool_end cb p =
        (\<lparr> calledBack = True, closedConnections = 1 \<rparr>,
         p\<lparr>closed := True, expiredTimer := False,
           effects := effects p @ [Invoke (EndCallback cb None)]\<rparr>)"
    by (simp add: pool_end_empty)
  have b: "allConnections p \<noteq> [] \<longrightarrow>
      pool_end cb p =
        (\<lparr> calledBack = False, closedConnections = 0 \<rparr>,
         p\<lparr>closed := True, expiredTimer := False,
           effects := effects p @ map RealEnd (allConnections p)\<rparr>)"
    by (simp add: pool_end_nonempty)
  have c: "allConnections p \<noteq> [] \<and> length errs \<le> length (allConnections p) \<longrightarrow>
      emitted (snd (pool_end cb p)) (snd (endCB_replies cb errs (pool_end cb p))) =
        completion_due cb (length (allConnections p)) errs"
  proof
    assume h: "allConnections p \<noteq> [] \<and> length errs \<le> length (allConnections p)"
    let ?p = "p\<lparr>closed := True, expiredTimer := False,
           effects := effects p @ map RealEnd (allConnections p)\<rparr>"
    let ?s = "\<lparr> calledBack = False, closedConnections = 0 \<rparr>"
    have "effects (snd (endCB_replies cb errs (?s, ?p))) =
        effects ?p @ completion_due cb (length (allConnections ?p) - closedConnections ?s) errs"
      using h by (intro endCB_replies_effects) simp_all
    then show "emitted (snd (pool_end cb p)) (snd (endCB_replies cb errs (pool_end cb p))) =
        completion_due cb (length (allConnections p)) errs"
      using h by (simp add: pool_end_nonempty emitted_def)
  qed
  have d: "length (filter completion (emitted p (snd (endCB_replies cb errs (pool_end cb p))))) \<le> 1"
  proof (cases "allConnections p = []")
    case True
    then show ?thesis
      by (simp add: pool_end_empty endCB_replies_called emitted_def completion_def)
  next
    case False
    let ?p = "p\<lparr>closed := True, expiredTimer := False,
           effects := effects p @ map RealEnd (allConnections p)\<rparr>"
    let ?s = "\<lparr> calledBack = False, closedConnections = 0 \<rparr>"
    from endCB_replies_once [of cb errs ?s ?p] obtain es where
      es: "effects (snd (endCB_replies cb errs (?s, ?p))) = effects ?p @ es" "length es \<le> 1"
      by blast
    have "filter completion (map RealEnd (allConnections p)) = []"
      by (induction "allConnections p") (auto simp add: completion_def filter_empty_conv)
    with es False show ?thesis
      by (simp add: pool_end_nonempty emitted_def) (meson filter_is_subset le_trans length_filter_le)
  qed
  have e: "allConnections p = [] \<or> length errs = length (allConnections p) \<longrightarrow>
      length (filter completion (emitted p (snd (endCB_replies cb errs (pool_end cb p))))) = 1"
  proof (cases "allConnections p = []")
    case True
    then show ?thesis
      by (simp add: pool_end_empty endCB_replies_called emitted_def completion_def)
  next
    case False
    show ?thesis
    proof
      assume "allConnections p = [] \<or> length errs = length (allConnections p)"
      with False have l: "length errs = length (allConnections p)" by simp
      let ?p = "p\<lparr>closed := True, expiredTimer := False,
           effects := effects p @ map RealEnd (allConnections p)\<rparr>"
      let ?s = "\<lparr> calledBack = False, closedConnections = 0 \<rparr>"
      have "effects (snd (endCB_replies cb errs (?s, ?p))) =
          effects ?p @ completion_due cb (length (allConnections ?p) - closedConnections ?s) errs"
        using False l by (intro endCB_replies_effects) simp_all
      moreover obtain err where
        "completion_due cb (length (allConnections p)) errs = [Invoke (EndCallback cb err)]"
        using completion_due_all [of "length (allConnections p)" errs cb] l by auto
      ultimately show
        "length (filter completion (emitted p (snd (endCB_replies cb errs (pool_end cb p))))) = 1"
        using False
        by (simp add: pool_end_nonempty emitted_def no_completion_RealEnd completion_def)
    qed
  qed
  from a b c d e show ?thesis by (intro conjI)
qed

theorem pool_end_completion_witness:
  "allConnections (Pool scenario_config) = []
   \<and> pool_end (Some 9) (Pool scenario_config) =
       (\<lparr> calledBack = True, closedConnections = 1 \<rparr>,
        (Pool scenario_config)\<lparr>closed := True, expiredTimer := False,
          effects := [Invoke (EndCallback (Some 9) None)]\<rparr>)
   \<and> allConnections full_pool = [0, 1]
   \<and> emitted full_pool (snd (pool_end (Some 9) full_pool)) = [RealEnd 0, RealEnd 1]
   \<and> emitted (snd (pool_end (Some 9) full_pool))
        (snd (endCB_replies (Some 9) [None] (pool_end (Some 9) full_pool))) = []
   \<and> emitted (snd (pool_end (Some 9) full_pool))
        (snd (endCB_replies (Some 9) [None, None] (pool_end (Some 9) full_pool))) =
       [Invoke (EndCallback (Some 9) None)]
   \<and> emitted (snd (pool_end (Some 9) full_pool))
        (snd (endCB_replies (Some 9) [Some (Error ''read ECONNRESET''), None]
           (pool_end (Some 9) full_pool))) =
       [Invoke (EndCallback (Some 9) (Some (Error ''read ECONNRESET'')))]"
proof -
  have a: "pool_end (Some 9) (Pool scenario_config) =
       (\<lparr> calledBack = True, closedConnections = 1 \<rparr>,
        (Pool scenario_config)\<lparr>closed := True, expiredTimer := False,
          effects := [Invoke (EndCallback (Some 9) None)]\<rparr>)"
    using pool_end_completion [where p = "Pool scenario_config" and cb = "Some 9", THEN conjunct1]
    by (simp add: Pool_def)
  have b: "pool_end (Some 9) full_pool =
        (\<lparr> calledBack = False, closedConnections = 0 \<rparr>,
         full_pool\<lparr>closed := True, expiredTimer := False,
           effects := effects full_pool @ map RealEnd (allConnections full_pool)\<rparr>)"
    using pool_end_completion [where p = full_pool and cb = "Some 9",
        THEN conjunct2, THEN conjunct1]
    by (simp add: full_pool_state)
  have c: "emitted (snd (pool_end (Some 9) full_pool))
        (snd (endCB_replies (Some 9) errs (pool_end (Some 9) full_pool))) =
       completion_due (Some 9) (Suc (Suc 0)) errs" if "length errs \<le> 2" for errs
    using pool_end_completion [where p = full_pool and cb = "Some 9" and errs = errs,
        THEN conjunct2, THEN conjunct2, THEN conjunct1] that
    by (simp add: full_pool_state)
  have d: "emitted full_pool (snd (pool_end (Some 9) full_pool)) = [RealEnd 0, RealEnd 1]"
    by (simp add: b emitted_def full_pool_state)
  from a d show ?thesis
    by (simp add: c completion_due_def full_pool_state) (simp add: Pool_def)
qed

section \<open>The connection limit\<close>

text \<open>What each call does to \<open>allConnections\<close> and to the configuration.\<close>

lemma splice_scan_length: "length (splice_scan k c q) \<le> length q"
proof (induction k c q rule: splice_scan.induct)
  case (3 k connection x xs)
  then show ?case by (auto simp add: push_def)
qed simp_all

lemma spliceConnection_length: "length (spliceConnection q c) \<le> length q"
  by (simp add: spliceConnection_def pop_def splice_scan_length)

lemma releaseConnection_frame:
  "allConnections (releaseConnection c now p) = allConnections p"
  "config (releaseConnection c now p) = config p"
  by (simp_all add: releaseConnection_def shift_def perform_def push_def split: list.splits)

lemma removeConnection_frame:
  "length (allConnections (removeConnection c now p)) \<le> length (allConnections p)"
  "config (removeConnection c now p) = config p"
  by (simp_all add: removeConnection_def Let_def releaseConnection_frame stopExpiredTimer_def
      spliceConnection_length)

lemma destroy_frame:
  "length (allConnections (destroy c now p)) \<le> length (allConnections p)"
  "config (destroy c now p) = config p"
  using removeConnection_frame [of c now "detach c p"]
  by (simp_all add: destroy_def perform_def detach_def)

lemma closeIdleLoop_frame:
  "length (allConnections (closeIdleLoop now timeout p)) \<le> length (allConnections p)
   \<and> config (closeIdleLoop now timeout p) = config p"
proof (induction now timeout p rule: closeIdleLoop.induct)
  case (1 now timeout p)
  show ?case
  proof (cases "0 < length (extraConnections p)")
    case False
    then show ?thesis by (subst (1 2) closeIdleLoop.simps) simp
  next
    case True
    show ?thesis
    proof (cases "peek (extraConnections p)")
      case None
      with True show ?thesis by (subst (1 2) closeIdleLoop.simps) simp
    next
      case (Some conn)
      show ?thesis
      proof (cases "idle_expired now timeout (conn_lastReleased p conn)")
        case False
        with True Some show ?thesis by (subst (1 2) closeIdleLoop.simps) simp
      next
        case expired: True
        let ?q = "destroy conn now (p\<lparr>extraConnections := snd (shift (extraConnections p))\<rparr>)"
        have step: "closeIdleLoop now timeout p = closeIdleLoop now timeout ?q"
          using True Some expired by (subst closeIdleLoop.simps) simp
        have q: "length (allConnections ?q) \<le> length (allConnections p)" "config ?q = config p"
          using destroy_frame [of conn now "p\<lparr>extraConnections := snd (shift (extraConnections p))\<rparr>"]
          by simp_all
        from "1.IH" [OF True Some expired] q show ?thesis
          by (simp add: step)
      qed
    qed
  qed
qed

lemma closeIdleConnections_frame:
  "length (allConnections (closeIdleConnections now p)) \<le> length (allConnections p)"
  "config (closeIdleConnections now p) = config p"
  by (simp_all add: closeIdleConnections_def closeIdleLoop_frame)

lemma pool_end_frame:
  "allConnections (snd (pool_end cb p)) = allConnections p"
  "config (snd (pool_end cb p)) = config p"
  by (cases "allConnections p = []"; simp add: pool_end_empty pool_end_nonempty)+

lemma connectCallback_frame:
  "allConnections (connectCallback cb c err p) = allConnections p"
  "config (connectCallback cb c err p) = config p"
  by (simp_all add: connectCallback_def perform_def split: option.splits)

lemma getConnection_config: "config (getConnection cb p) = config p"
  by (cases p rule: getConnection_branches)
     (simp_all add: getConnection_closed getConnection_free getConnection_extra
        getConnection_create getConnection_nowait getConnection_queue_full
        getConnection_enqueue)

lemma getConnection_all:
  "allConnections (getConnection cb p) = allConnections p
   \<or> (connectionLimit (config p) = 0
        \<or> int (length (allConnections p)) < connectionLimit (config p))
      \<and> allConnections (getConnection cb p) = allConnections p @ [next_conn p]"
  by (cases p rule: getConnection_branches)
     (simp_all add: getConnection_closed getConnection_free getConnection_extra
        getConnection_create getConnection_nowait getConnection_queue_full
        getConnection_enqueue)

lemma step_config: "config (step op p) = config p"
  by (cases op)
     (simp_all add: getConnection_config connectCallback_frame releaseConnection_frame
        pool_end_frame closeIdleConnections_frame removeConnection_frame detach_def)

lemma run_snoc: "run (ops @ [op]) p = step op (run ops p)"
  by (simp add: run_def)

lemma run_config: "config (run ops (Pool cfg)) = cfg"
  by (induction ops rule: rev_induct) (simp_all add: run_snoc step_config, simp add: run_def Pool_def)

lemma step_grows:
  "length (allConnections p) < length (allConnections (step op p)) \<Longrightarrow>
   (\<exists>cb. op = OpGetConnection cb)
   \<and> (connectionLimit (config p) = 0
       \<or> int (length (allConnections p)) < connectionLimit (config p))
   \<and> allConnections (step op p) = allConnections p @ [next_conn p]"
proof (cases op)
  case (OpGetConnection cb)
  assume "length (allConnections p) < length (allConnections (step op p))"
  with OpGetConnection getConnection_all [of cb p] show ?thesis by auto
next
  case (OpRemoveConnection c now)
  assume "length (allConnections p) < length (allConnections (step op p))"
  with OpRemoveConnection removeConnection_frame(1) [of c now p] show ?thesis by simp
next
  case (OpCloseIdleConnections now)
  assume "length (allConnections p) < length (allConnections (step op p))"
  with OpCloseIdleConnections closeIdleConnections_frame(1) [of now p] show ?thesis by simp
qed (simp_all add: connectCallback_frame releaseConnection_frame pool_end_frame detach_def)

lemma run_bounded:
  "0 < connectionLimit cfg \<Longrightarrow>
   int (length (allConnections (run ops (Pool cfg)))) \<le> connectionLimit cfg"
proof (induction ops rule: rev_induct)
  case Nil
  then show ?case by (simp add: run_def Pool_def)
next
  case (snoc op ops)
  let ?p = "run ops (Pool cfg)"
  have c: "config ?p = cfg" by (rule run_config)
  show ?case
  proof (cases "length (allConnections ?p) < length (allConnections (step op ?p))")
    case True
    from step_grows [OF True] c
    have "int (length (allConnections ?p)) < connectionLimit cfg"
      and "allConnections (step op ?p) = allConnections ?p @ [next_conn ?p]"
      using snoc.prems by auto
    then show ?thesis by (simp add: run_snoc)
  next
    case False
    with snoc show ?thesis by (simp add: run_snoc)
  qed
qed

text \<open>
  C4, as stated, fails for a negative limit: a new pool has no connection, and zero is
  greater than the limit.
\<close>

theorem allConnections_bounded_counterexample:
  "connectionLimit negative_config \<noteq> 0
   \<and> \<not> int (length (allConnections (run [] (Pool negative_config))))
        \<le> connectionLimit negative_config"
  by (simp add: negative_config_def run_def Pool_def)

text \<open>
  C4, amended. Whenever \<open>connectionLimit\<close> is a positive integer, every state reached by a
  run from a new pool has at most \<open>connectionLimit\<close> connections in \<open>allConnections\<close>; the
  configuration never changes. A call makes \<open>allConnections\<close> longer only if it is
  \<^verbatim>\<open>getConnection\<close> and \<open>connectionLimit = 0\<close> or \<open>|allConnections| < connectionLimit\<close>,
  and then by the one new connection. The limit of the pool modelled here is an integer;
  for a limit that is not, such as 1.5, the test \<open>|allConnections| < connectionLimit\<close>
  admits a connection beyond the limit, and the bound does not hold.
\<close>

theorem allConnections_bounded:
  "(0 < connectionLimit cfg \<longrightarrow>
      int (length (allConnections (run ops (Pool cfg)))) \<le> connectionLimit cfg)
   \<and> config (run ops (Pool cfg)) = cfg
   \<and> (length (allConnections p) < length (allConnections (step op p)) \<longrightarrow>
        (\<exists>cb. op = OpGetConnection cb)
        \<and> (connectionLimit (config p) = 0
            \<or> int (length (allConnections p)) < connectionLimit (config p))
        \<and> allConnections (step op p) = allConnections p @ [next_conn p])"
  using run_bounded [of cfg ops] run_config [of ops cfg] step_grows [of p op] by blast

theorem allConnections_bounded_witness:
  "0 < connectionLimit scenario_config
   \<and> full_pool =
       run [OpGetConnection 0, OpGetConnection 1, OpGetConnection 2] (Pool scenario_config)
   \<and> int (length (allConnections full_pool)) \<le> connectionLimit scenario_config
   \<and> length (allConnections full_pool) = 2
   \<and> config full_pool = scenario_config
   \<and> length (allConnections (Pool scenario_config))
       < length (allConnections (step (OpGetConnection 0) (Pool scenario_config)))
   \<and> allConnections (step (OpGetConnection 0) (Pool scenario_config)) = [0]"
proof -
  have g: "length (allConnections (Pool scenario_config))
       < length (allConnections (step (OpGetConnection 0) (Pool scenario_config)))"
    by (simp add: scenario_config_def pool_eval)
  have a: "int (length (allConnections full_pool)) \<le> connectionLimit scenario_config"
    using allConnections_bounded [where cfg = scenario_config
        and ops = "[OpGetConnection 0, OpGetConnection 1, OpGetConnection 2]"]
    by (simp add: full_pool_def scenario_config_def)
  have b: "allConnections (step (OpGetConnection 0) (Pool scenario_config)) = [0]"
    using allConnections_bounded [where p = "Pool scenario_config" and op = "OpGetConnection 0"] g
    by (simp add: Pool_def)
  from a b g show ?thesis
    by (simp add: full_pool_state) (simp add: full_pool_def scenario_config_def)
qed

section \<open>Removal\<close>

text \<open>
  When the connection is not in the queue, the scan of \<^verbatim>\<open>spliceConnection\<close> rotates the
  queue \<open>length q - 1\<close> times: the last connection ends at the front.
\<close>

lemma splice_scan_absent: "c \<notin> set q \<Longrightarrow> splice_scan k c q = rotate k q"
  by (induction k c q rule: splice_scan.induct)
     (auto simp: push_def rotate1_rotate_swap)

lemma spliceConnection_absent:
  "c \<notin> set q \<Longrightarrow> spliceConnection q c = rotate (length q - 1) q"
  by (auto simp add: spliceConnection_def splice_scan_absent)

text \<open>
  Apart from the removal scan, the calls keep the extra queue in order:
  \<^verbatim>\<open>getConnection\<close> removes from its back, and a release appends a connection that is
  not yet in the queue, with a stamp that is no earlier than the stamps in the queue.
\<close>

lemma releaseConnection_extra:
  "conn_pool p c \<Longrightarrow> connectionQueue p = [] \<Longrightarrow>
   minConnections (config p) \<le> int (length (freeConnections p)) \<Longrightarrow>
   releaseConnection c now p =
     p\<lparr>conn_lastReleased := (conn_lastReleased p)(c := Some now),
       extraConnections := extraConnections p @ [c]\<rparr>"
  by (simp add: releaseConnection_def push_def)

lemma releaseConnection_extra_unchanged:
  "\<not> (conn_pool p c \<and> connectionQueue p = []
      \<and> minConnections (config p) \<le> int (length (freeConnections p))) \<Longrightarrow>
   extraConnections (releaseConnection c now p) = extraConnections p
   \<and> conn_lastReleased (releaseConnection c now p) = conn_lastReleased p"
  by (auto simp add: releaseConnection_def shift_def perform_def push_def split: list.splits)

lemma releaseConnection_sorted:
  assumes "extra_sorted p" and "c \<notin> set (extraConnections p)"
    and "\<forall>x \<in> set (extraConnections p). stamp_le (conn_lastReleased p x) (Some now)"
  shows "extra_sorted (releaseConnection c now p)"
proof (cases "conn_pool p c \<and> connectionQueue p = []
      \<and> minConnections (config p) \<le> int (length (freeConnections p))")
  case False
  with assms(1) show ?thesis
    by (simp add: extra_sorted_def releaseConnection_extra_unchanged)
next
  case True
  let ?lr = "(conn_lastReleased p)(c := Some now)"
  have "sorted_wrt (\<lambda>a b. stamp_le (?lr a) (?lr b)) (extraConnections p)"
    using assms(1,2) unfolding extra_sorted_def
    by (rule_tac sorted_wrt_mono_rel) auto
  moreover have "\<forall>x \<in> set (extraConnections p). stamp_le (?lr x) (?lr c)"
    using assms(2,3) by auto
  ultimately show ?thesis
    using True by (simp add: releaseConnection_extra extra_sorted_def sorted_wrt_append)
qed

lemma getConnection_sorted:
  "extra_sorted p \<Longrightarrow> extra_sorted (getConnection cb p)"
  by (cases p rule: getConnection_branches)
     (simp_all add: getConnection_closed getConnection_free getConnection_extra
        getConnection_create getConnection_nowait getConnection_queue_full
        getConnection_enqueue extra_sorted_def sorted_wrt_append)

text \<open>
  C5. The claim is that \<open>extraConnections\<close> stays in ascending order of \<open>lastReleased\<close>,
  also under the removal scan. The code at \<open>rotated_pool\<close>: before the removal the extra
  queue is \<open>[0, 1, 2]\<close>, released at 1000, 2000 and 3000, in order, and its aged-out prefix
  at 17500 is \<open>[0, 1]\<close>; the removal of connection 3, which is in use, leaves \<open>[2, 0, 1]\<close>,
  out of order. The sweep at 17500 then evicts nothing, though connections 0 and 1 are
  aged out: it stops at connection 2, the youngest, at the front.
\<close>

theorem removeConnection_breaks_order:
  "extraConnections surplus_pool = [0, 1, 2]
   \<and> map (conn_lastReleased surplus_pool) [0, 1, 2] = [Some 1000, Some 2000, Some 3000]
   \<and> extra_sorted surplus_pool
   \<and> takeWhile (aged_out 17500 surplus_pool) (extraConnections surplus_pool) = [0, 1]
   \<and> extraConnections rotated_pool = [2, 0, 1]
   \<and> map (conn_lastReleased rotated_pool) [2, 0, 1] = [Some 3000, Some 1000, Some 2000]
   \<and> \<not> extra_sorted rotated_pool
   \<and> aged_out 17500 rotated_pool 0 \<and> aged_out 17500 rotated_pool 1
   \<and> extraConnections (closeIdleConnections 17500 rotated_pool) = [2, 0, 1]
   \<and> emitted rotated_pool (closeIdleConnections 17500 rotated_pool) = []"
proof -
  have a: "extra_sorted surplus_pool" "\<not> extra_sorted rotated_pool"
    by (simp_all add: extra_sorted_def stamp_le_def surplus_pool_state rotated_pool_state)
  have g: "aged_out 17500 rotated_pool 0" "aged_out 17500 rotated_pool (Suc 0)"
    "\<not> aged_out 17500 rotated_pool 2"
    "aged_out 17500 surplus_pool 0" "aged_out 17500 surplus_pool (Suc 0)"
    "\<not> aged_out 17500 surplus_pool 2"
    by (simp_all add: aged_out_def surplus_pool_state rotated_pool_state surplus_config_def)
  have "closeIdleConnections 17500 rotated_pool = rotated_pool"
    unfolding closeIdleConnections_def
    by (subst closeIdleLoop.simps)
       (simp add: rotated_pool_state peek_def idle_expired_aged_out [symmetric] g
          idle_expired_def surplus_config_def)
  with a g show ?thesis
    by (simp add: surplus_pool_state rotated_pool_state emitted_def)
qed

text \<open>
  C8. The claim is that removing a connection that is in none of the three queues leaves
  them as they are. The code, for connection 9, which is in no queue and has no
  back-reference: in \<open>warm_pool\<close> it turns \<open>allConnections\<close> from \<open>[0, 1, 2]\<close> into
  \<open>[2, 0, 1]\<close> and \<open>extraConnections\<close> from \<open>[1, 2]\<close> into \<open>[2, 1]\<close>; in \<open>full_pool\<close> it turns
  \<open>allConnections\<close> from \<open>[0, 1]\<close> into \<open>[1, 0]\<close>, and the waiter is sent through a fresh
  acquisition on the next tick, as claimed.
\<close>

theorem removeConnection_absent_rotates:
  "allConnections warm_pool = [0, 1, 2] \<and> freeConnections warm_pool = [0]
   \<and> extraConnections warm_pool = [1, 2]
   \<and> 9 \<notin> set (allConnections warm_pool) \<and> \<not> conn_pool warm_pool 9
   \<and> allConnections (removeConnection 9 5000 warm_pool) = [2, 0, 1]
   \<and> freeConnections (removeConnection 9 5000 warm_pool) = [0]
   \<and> extraConnections (removeConnection 9 5000 warm_pool) = [2, 1]
   \<and> allConnections full_pool = [0, 1] \<and> connectionQueue full_pool = [2]
   \<and> 9 \<notin> set (allConnections full_pool) \<and> \<not> conn_pool full_pool 9
   \<and> allConnections (removeConnection 9 5000 full_pool) = [1, 0]
   \<and> emitted full_pool (removeConnection 9 5000 full_pool) = [NextTick (GetConnection 2)]"
  by (simp add: warm_pool_state full_pool_state)
     (simp add: warm_pool_def warm_config_def full_pool_def scenario_config_def pool_eval
        remove_eval emitted_def)

end
